theory Spec2Isabelle
  imports Main "HOL-Library.Option_ord"
begin

section \<open>Sales backend: customers, products, sales and line items\<close>

text \<open>
  A shallow embedding of \<^verbatim>\<open>models.py\<close>, \<^verbatim>\<open>schemas.py\<close>, \<^verbatim>\<open>database.py\<close> and
  \<^verbatim>\<open>crud.py\<close>. The four tables are lists of rows in insertion order. Every function of
  \<^verbatim>\<open>crud.py\<close> takes the database as it stands when the request starts and returns
  either an error (the exception that leaves the function) or the committed database
  together with the value the Python function returns.

  What the relational engine does for the program is written out from the declarations
  of \<^verbatim>\<open>models.py\<close> and \<^verbatim>\<open>database.py\<close>: primary keys are assigned as the largest
  key plus one, \<^verbatim>\<open>nullable=False\<close> and \<^verbatim>\<open>unique=True\<close> columns and the foreign keys
  (\<^verbatim>\<open>PRAGMA foreign_keys=ON\<close>) are checked when a row is written, the relationships
  declared with \<^verbatim>\<open>cascade="all, delete-orphan"\<close> delete the dependent rows, and SQL
  aggregates skip NULL. Integer columns are unbounded integers here (the 64-bit range of
  the storage engine is not modelled). The clock (\<^verbatim>\<open>datetime.utcnow\<close>) and the random
  identifiers (\<^verbatim>\<open>uuid4()\<close>) are inputs of each request: one clock reading \<open>now\<close>, and
  \<open>uuid4 i\<close> for the \<open>i\<close>-th identifier drawn.
\<close>

subsection \<open>Tables (models.py)\<close>

type_synonym datetime = int

datatype error = IntegrityError

record Cliente =
  c_id :: int
  c_uuid :: string
  c_nombre :: string
  c_email :: string
  c_rut :: string
  c_created_at :: datetime
  c_modified_at :: datetime

record Producto =
  p_id :: int
  p_uuid :: string
  p_nombre :: string
  p_categoria :: "string option"
  p_precio :: int
  p_created_at :: datetime
  p_modified_at :: datetime

record Venta =
  v_id :: int
  v_uuid :: string
  v_fecha :: datetime
  v_total :: int
  v_created_at :: datetime
  v_modified_at :: datetime
  v_cliente_id :: int

text \<open>
  \<^verbatim>\<open>descuento\<close> and \<^verbatim>\<open>cantidad\<close> are nullable columns (their defaults apply on insert
  only), so a stored line item may hold NULL there; \<^verbatim>\<open>precio\<close> is \<^verbatim>\<open>nullable=False\<close>.
\<close>

record DetalleVenta =
  d_id :: int
  d_uuid :: string
  d_producto_id :: int
  d_venta_id :: int
  d_precio :: int
  d_descuento :: "int option"
  d_cantidad :: "int option"
  d_created_at :: datetime
  d_modified_at :: datetime

record db =
  clientes :: "Cliente list"
  productos :: "Producto list"
  ventas :: "Venta list"
  detalles_ventas :: "DetalleVenta list"

definition empty_db :: db where
  "empty_db = \<lparr>clientes = [], productos = [], ventas = [], detalles_ventas = []\<rparr>"

subsection \<open>Request bodies (schemas.py)\<close>

text \<open>
  A field of an update body is \<^verbatim>\<open>Optional[...] = None\<close> and the body is read with
  \<^verbatim>\<open>model_dump(exclude_unset=True)\<close>: a field that the request leaves out is \<open>Unset\<close>,
  a field the request gives is \<open>Given v\<close>, where \<open>v\<close> is \<open>None\<close> for an explicit null.
\<close>

datatype 'a field = Unset | Given 'a

record ClienteCreate =
  cc_nombre :: string
  cc_email :: string
  cc_rut :: string

record ClienteUpdate =
  cu_nombre :: "string option field"
  cu_email :: "string option field"
  cu_rut :: "string option field"

record ProductoCreate =
  pc_nombre :: string
  pc_categoria :: "string option"
  pc_precio :: int

record ProductoUpdate =
  pu_nombre :: "string option field"
  pu_categoria :: "string option field"
  pu_precio :: "int option field"

record DetalleVentaCreate =
  dc_producto_id :: int
  dc_precio :: int
  dc_descuento :: int
  dc_cantidad :: int

record DetalleVentaCreateStandalone =
  ds_producto_id :: int
  ds_precio :: int
  ds_descuento :: int
  ds_cantidad :: int
  ds_venta_id :: int

record DetalleVentaUpdate =
  du_precio :: "int option field"
  du_descuento :: "int option field"
  du_cantidad :: "int option field"

record VentaCreate =
  vc_cliente_id :: int
  vc_detalles :: "DetalleVentaCreate list"

record VentaUpdate =
  vu_cliente_id :: "int option field"



subsection \<open>The relational engine\<close>

text \<open>The key of a new row: 1 in an empty table, the largest key plus one otherwise.\<close>

definition next_id :: "int list \<Rightarrow> int" where
  "next_id ids = (case ids of [] \<Rightarrow> 1 | x # xs \<Rightarrow> fold max xs x + 1)"

text \<open>\<^verbatim>\<open>setattr\<close> on a \<^verbatim>\<open>nullable=False\<close> column, and on a nullable one.\<close>

definition required :: "'a option field \<Rightarrow> 'a \<Rightarrow> error + 'a" where
  "required f old =
     (case f of Unset \<Rightarrow> Inr old | Given None \<Rightarrow> Inl IntegrityError | Given (Some v) \<Rightarrow> Inr v)"

definition nullable :: "'a option field \<Rightarrow> 'a option \<Rightarrow> 'a option" where
  "nullable f old = (case f of Unset \<Rightarrow> old | Given v \<Rightarrow> v)"

text \<open>SQL \<^verbatim>\<open>SUM\<close> skips NULL and is NULL when nothing is left; \<^verbatim>\<open>COALESCE\<close>.\<close>

fun non_null :: "'a option list \<Rightarrow> 'a list" where
  "non_null [] = []"
| "non_null (None # xs) = non_null xs"
| "non_null (Some x # xs) = x # non_null xs"

definition sql_sum :: "int option list \<Rightarrow> int option" where
  "sql_sum xs = (case non_null xs of [] \<Rightarrow> None | y # ys \<Rightarrow> Some (sum_list (y # ys)))"

definition coalesce :: "'a option \<Rightarrow> 'a \<Rightarrow> 'a" where
  "coalesce x d = (case x of None \<Rightarrow> d | Some v \<Rightarrow> v)"

text \<open>\<^verbatim>\<open>(precio - descuento) * cantidad\<close> as SQL evaluates it on a stored row.\<close>

definition subtotal :: "DetalleVenta \<Rightarrow> int option" where
  "subtotal d =
     (case d_descuento d of
        None \<Rightarrow> None
      | Some de \<Rightarrow> (case d_cantidad d of None \<Rightarrow> None | Some ca \<Rightarrow> Some ((d_precio d - de) * ca)))"





text \<open>Writing a new row: the unique columns and the foreign keys are checked.\<close>

definition add_cliente :: "db \<Rightarrow> datetime \<Rightarrow> string \<Rightarrow> string \<Rightarrow> string \<Rightarrow> string \<Rightarrow> error + (db \<times> Cliente)" where
  "add_cliente s now uuid nombre email rut =
     (if uuid \<notin> set (map c_uuid (clientes s)) \<and> email \<notin> set (map c_email (clientes s))
         \<and> rut \<notin> set (map c_rut (clientes s))
      then let c = \<lparr>c_id = next_id (map c_id (clientes s)), c_uuid = uuid, c_nombre = nombre,
                    c_email = email, c_rut = rut, c_created_at = now, c_modified_at = now\<rparr>
           in Inr (s\<lparr>clientes := clientes s @ [c]\<rparr>, c)
      else Inl IntegrityError)"

definition add_producto :: "db \<Rightarrow> datetime \<Rightarrow> string \<Rightarrow> string \<Rightarrow> string option \<Rightarrow> int \<Rightarrow> error + (db \<times> Producto)" where
  "add_producto s now uuid nombre categoria precio =
     (if uuid \<notin> set (map p_uuid (productos s))
      then let p = \<lparr>p_id = next_id (map p_id (productos s)), p_uuid = uuid, p_nombre = nombre,
                    p_categoria = categoria, p_precio = precio, p_created_at = now,
                    p_modified_at = now\<rparr>
           in Inr (s\<lparr>productos := productos s @ [p]\<rparr>, p)
      else Inl IntegrityError)"

definition add_venta :: "db \<Rightarrow> datetime \<Rightarrow> string \<Rightarrow> int \<Rightarrow> error + (db \<times> Venta)" where
  "add_venta s now uuid cliente_id =
     (if uuid \<notin> set (map v_uuid (ventas s)) \<and> cliente_id \<in> set (map c_id (clientes s))
      then let v = \<lparr>v_id = next_id (map v_id (ventas s)), v_uuid = uuid, v_fecha = now,
                    v_total = 0, v_created_at = now, v_modified_at = now,
                    v_cliente_id = cliente_id\<rparr>
           in Inr (s\<lparr>ventas := ventas s @ [v]\<rparr>, v)
      else Inl IntegrityError)"

definition add_detalle :: "db \<Rightarrow> datetime \<Rightarrow> string \<Rightarrow> int \<Rightarrow> int \<Rightarrow> int \<Rightarrow> int \<Rightarrow> int \<Rightarrow> error + (db \<times> DetalleVenta)" where
  "add_detalle s now uuid producto_id venta_id precio descuento cantidad =
     (if uuid \<notin> set (map d_uuid (detalles_ventas s))
         \<and> producto_id \<in> set (map p_id (productos s))
         \<and> venta_id \<in> set (map v_id (ventas s))
      then let d = \<lparr>d_id = next_id (map d_id (detalles_ventas s)), d_uuid = uuid,
                    d_producto_id = producto_id, d_venta_id = venta_id, d_precio = precio,
                    d_descuento = Some descuento, d_cantidad = Some cantidad,
                    d_created_at = now, d_modified_at = now\<rparr>
           in Inr (s\<lparr>detalles_ventas := detalles_ventas s @ [d]\<rparr>, d)
      else Inl IntegrityError)"

text \<open>Assigning \<^verbatim>\<open>venta.total\<close>: the row is rewritten (and \<^verbatim>\<open>onupdate\<close> stamps
  \<^verbatim>\<open>modified_at\<close>) when the value differs from the stored one.\<close>

definition set_total :: "db \<Rightarrow> datetime \<Rightarrow> Venta \<Rightarrow> int \<Rightarrow> db \<times> Venta" where
  "set_total s now v x =
     (let v' = (if v_total v = x then v else v\<lparr>v_total := x, v_modified_at := now\<rparr>)
      in (s\<lparr>ventas := map (\<lambda>y. if v_id y = v_id v then v' else y) (ventas s)\<rparr>, v'))"

text \<open>What a request leaves committed: on an exception the session is closed by
  \<^verbatim>\<open>get_db\<close> without a commit, and the database is the one the request started with.\<close>

definition get_db :: "db \<Rightarrow> (db \<Rightarrow> error + (db \<times> 'a)) \<Rightarrow> db" where
  "get_db s handler = (case handler s of Inl e \<Rightarrow> s | Inr (s', r) \<Rightarrow> s')"

subsection \<open>Clientes (crud.py)\<close>

definition create_cliente :: "db \<Rightarrow> datetime \<Rightarrow> (nat \<Rightarrow> string) \<Rightarrow> ClienteCreate \<Rightarrow> error + (db \<times> Cliente)" where
  "create_cliente s now uuid4 data =
     add_cliente s now (uuid4 0) (cc_nombre data) (cc_email data) (cc_rut data)"

definition get_cliente :: "db \<Rightarrow> int \<Rightarrow> Cliente option" where
  "get_cliente s cliente_id = find (\<lambda>c. c_id c = cliente_id) (clientes s)"

definition update_cliente :: "db \<Rightarrow> datetime \<Rightarrow> int \<Rightarrow> ClienteUpdate \<Rightarrow> error + (db \<times> Cliente option)" where
  "update_cliente s now cliente_id data =
     (case get_cliente s cliente_id of
        None \<Rightarrow> Inr (s, None)
      | Some cliente \<Rightarrow>
          (case required (cu_nombre data) (c_nombre cliente) of
             Inl e \<Rightarrow> Inl e
           | Inr nombre \<Rightarrow>
          (case required (cu_email data) (c_email cliente) of
             Inl e \<Rightarrow> Inl e
           | Inr email \<Rightarrow>
          (case required (cu_rut data) (c_rut cliente) of
             Inl e \<Rightarrow> Inl e
           | Inr rut \<Rightarrow>
               (let c' = cliente\<lparr>c_nombre := nombre, c_email := email, c_rut := rut\<rparr>;
                    others = filter (\<lambda>x. c_id x \<noteq> cliente_id) (clientes s)
                in if c' = cliente then Inr (s, Some cliente)
                   else if (email = c_email cliente \<or> email \<notin> set (map c_email others))
                         \<and> (rut = c_rut cliente \<or> rut \<notin> set (map c_rut others))
                   then let c'' = c'\<lparr>c_modified_at := now\<rparr>
                        in Inr (s\<lparr>clientes := map (\<lambda>x. if c_id x = cliente_id then c'' else x)
                                                   (clientes s)\<rparr>, Some c'')
                   else Inl IntegrityError)))))"

text \<open>\<^verbatim>\<open>Cliente.ventas\<close> and \<^verbatim>\<open>Venta.detalles\<close> cascade the deletion.\<close>

definition delete_cliente :: "db \<Rightarrow> int \<Rightarrow> error + (db \<times> bool)" where
  "delete_cliente s cliente_id =
     (case get_cliente s cliente_id of
        None \<Rightarrow> Inr (s, False)
      | Some cliente \<Rightarrow>
          (let owned = map v_id (filter (\<lambda>v. v_cliente_id v = cliente_id) (ventas s))
           in Inr (s\<lparr>clientes := filter (\<lambda>c. c_id c \<noteq> cliente_id) (clientes s),
                     ventas := filter (\<lambda>v. v_cliente_id v \<noteq> cliente_id) (ventas s),
                     detalles_ventas :=
                       filter (\<lambda>d. d_venta_id d \<notin> set owned) (detalles_ventas s)\<rparr>, True)))"

subsection \<open>Productos (crud.py)\<close>

definition create_producto :: "db \<Rightarrow> datetime \<Rightarrow> (nat \<Rightarrow> string) \<Rightarrow> ProductoCreate \<Rightarrow> error + (db \<times> Producto)" where
  "create_producto s now uuid4 data =
     add_producto s now (uuid4 0) (pc_nombre data) (pc_categoria data) (pc_precio data)"

definition get_producto :: "db \<Rightarrow> int \<Rightarrow> Producto option" where
  "get_producto s producto_id = find (\<lambda>p. p_id p = producto_id) (productos s)"

definition update_producto :: "db \<Rightarrow> datetime \<Rightarrow> int \<Rightarrow> ProductoUpdate \<Rightarrow> error + (db \<times> Producto option)" where
  "update_producto s now producto_id data =
     (case get_producto s producto_id of
        None \<Rightarrow> Inr (s, None)
      | Some producto \<Rightarrow>
          (case required (pu_nombre data) (p_nombre producto) of
             Inl e \<Rightarrow> Inl e
           | Inr nombre \<Rightarrow>
          (case required (pu_precio data) (p_precio producto) of
             Inl e \<Rightarrow> Inl e
           | Inr precio \<Rightarrow>
               (let p' = producto\<lparr>p_nombre := nombre,
                                  p_categoria := nullable (pu_categoria data) (p_categoria producto),
                                  p_precio := precio\<rparr>
                in if p' = producto then Inr (s, Some producto)
                   else let p'' = p'\<lparr>p_modified_at := now\<rparr>
                        in Inr (s\<lparr>productos := map (\<lambda>x. if p_id x = producto_id then p'' else x)
                                                    (productos s)\<rparr>, Some p'')))))"

text \<open>\<^verbatim>\<open>Producto.detalles\<close> declares no cascade and \<^verbatim>\<open>producto_id\<close> is a
  \<^verbatim>\<open>nullable=False\<close> foreign key: a product that a line item references cannot go.\<close>

definition delete_producto :: "db \<Rightarrow> int \<Rightarrow> error + (db \<times> bool)" where
  "delete_producto s producto_id =
     (case get_producto s producto_id of
        None \<Rightarrow> Inr (s, False)
      | Some producto \<Rightarrow>
          (if producto_id \<in> set (map d_producto_id (detalles_ventas s)) then Inl IntegrityError
           else Inr (s\<lparr>productos := filter (\<lambda>p. p_id p \<noteq> producto_id) (productos s)\<rparr>, True)))"

subsection \<open>Ventas (crud.py)\<close>

fun create_venta_loop :: "db \<Rightarrow> datetime \<Rightarrow> (nat \<Rightarrow> string) \<Rightarrow> int \<Rightarrow> nat \<Rightarrow> int \<Rightarrow> DetalleVentaCreate list \<Rightarrow> error + (db \<times> int)" where
  "create_venta_loop s now uuid4 venta_id i tot [] = Inr (s, tot)"
| "create_venta_loop s now uuid4 venta_id i tot (det # dets) =
     (let sub = (dc_precio det - dc_descuento det) * dc_cantidad det;
          total' = tot + sub
      in case add_detalle s now (uuid4 i) (dc_producto_id det) venta_id (dc_precio det)
                (dc_descuento det) (dc_cantidad det) of
           Inl e \<Rightarrow> Inl e
         | Inr (s', detalle) \<Rightarrow> create_venta_loop s' now uuid4 venta_id (Suc i) total' dets)"

definition create_venta :: "db \<Rightarrow> datetime \<Rightarrow> (nat \<Rightarrow> string) \<Rightarrow> VentaCreate \<Rightarrow> error + (db \<times> Venta)" where
  "create_venta s now uuid4 data =
     (case add_venta s now (uuid4 0) (vc_cliente_id data) of
        Inl e \<Rightarrow> Inl e
      | Inr (s1, venta) \<Rightarrow>
          (case create_venta_loop s1 now uuid4 (v_id venta) 1 0 (vc_detalles data) of
             Inl e \<Rightarrow> Inl e
           | Inr (s2, tot) \<Rightarrow> Inr (set_total s2 now venta tot)))"

definition get_venta :: "db \<Rightarrow> int \<Rightarrow> Venta option" where
  "get_venta s venta_id = find (\<lambda>v. v_id v = venta_id) (ventas s)"

definition delete_venta :: "db \<Rightarrow> int \<Rightarrow> error + (db \<times> bool)" where
  "delete_venta s venta_id =
     (case get_venta s venta_id of
        None \<Rightarrow> Inr (s, False)
      | Some venta \<Rightarrow>
          Inr (s\<lparr>ventas := filter (\<lambda>v. v_id v \<noteq> venta_id) (ventas s),
                 detalles_ventas := filter (\<lambda>d. d_venta_id d \<noteq> venta_id) (detalles_ventas s)\<rparr>,
               True))"

definition update_venta :: "db \<Rightarrow> datetime \<Rightarrow> int \<Rightarrow> VentaUpdate \<Rightarrow> error + (db \<times> Venta option)" where
  "update_venta s now venta_id data =
     (case get_venta s venta_id of
        None \<Rightarrow> Inr (s, None)
      | Some venta \<Rightarrow>
          (case required (vu_cliente_id data) (v_cliente_id venta) of
             Inl e \<Rightarrow> Inl e
           | Inr cliente_id \<Rightarrow>
               (let v' = venta\<lparr>v_cliente_id := cliente_id\<rparr>
                in if v' = venta then Inr (s, Some venta)
                   else if cliente_id \<in> set (map c_id (clientes s))
                   then let v'' = v'\<lparr>v_modified_at := now\<rparr>
                        in Inr (s\<lparr>ventas := map (\<lambda>x. if v_id x = venta_id then v'' else x)
                                                 (ventas s)\<rparr>, Some v'')
                   else Inl IntegrityError)))"

subsection \<open>Reportes (crud.py)\<close>



subsection \<open>Detalles de venta (crud.py)\<close>

definition recalcular_total_venta :: "db \<Rightarrow> datetime \<Rightarrow> int \<Rightarrow> db" where
  "recalcular_total_venta s now venta_id =
     (let suma = coalesce (sql_sum (map subtotal
                   (filter (\<lambda>d. d_venta_id d = venta_id) (detalles_ventas s)))) 0
      in case get_venta s venta_id of
           None \<Rightarrow> s
         | Some venta \<Rightarrow> fst (set_total s now venta (if suma = 0 then 0 else suma)))"

definition create_detalle :: "db \<Rightarrow> datetime \<Rightarrow> (nat \<Rightarrow> string) \<Rightarrow> DetalleVentaCreateStandalone \<Rightarrow> error + (db \<times> DetalleVenta)" where
  "create_detalle s now uuid4 data =
     (case add_detalle s now (uuid4 0) (ds_producto_id data) (ds_venta_id data) (ds_precio data)
             (ds_descuento data) (ds_cantidad data) of
        Inl e \<Rightarrow> Inl e
      | Inr (s1, detalle) \<Rightarrow> Inr (recalcular_total_venta s1 now (ds_venta_id data), detalle))"

definition get_detalle :: "db \<Rightarrow> int \<Rightarrow> DetalleVenta option" where
  "get_detalle s detalle_id = find (\<lambda>d. d_id d = detalle_id) (detalles_ventas s)"

definition update_detalle :: "db \<Rightarrow> datetime \<Rightarrow> int \<Rightarrow> DetalleVentaUpdate \<Rightarrow> error + (db \<times> DetalleVenta option)" where
  "update_detalle s now detalle_id data =
     (case get_detalle s detalle_id of
        None \<Rightarrow> Inr (s, None)
      | Some det \<Rightarrow>
          (case required (du_precio data) (d_precio det) of
             Inl e \<Rightarrow> Inl e
           | Inr precio \<Rightarrow>
               (let d' = det\<lparr>d_precio := precio,
                             d_descuento := nullable (du_descuento data) (d_descuento det),
                             d_cantidad := nullable (du_cantidad data) (d_cantidad det)\<rparr>;
                    d'' = (if d' = det then det else d'\<lparr>d_modified_at := now\<rparr>);
                    s1 = s\<lparr>detalles_ventas := map (\<lambda>x. if d_id x = detalle_id then d'' else x)
                                                    (detalles_ventas s)\<rparr>
                in Inr (recalcular_total_venta s1 now (d_venta_id d''), Some d''))))"

definition delete_detalle :: "db \<Rightarrow> datetime \<Rightarrow> int \<Rightarrow> error + (db \<times> bool)" where
  "delete_detalle s now detalle_id =
     (case get_detalle s detalle_id of
        None \<Rightarrow> Inr (s, False)
      | Some det \<Rightarrow>
          (let venta_id = d_venta_id det;
               s1 = s\<lparr>detalles_ventas := filter (\<lambda>d. d_id d \<noteq> detalle_id) (detalles_ventas s)\<rparr>
           in Inr (recalcular_total_venta s1 now venta_id, True)))"

subsection \<open>Requests (main.py)\<close>

datatype request =
    Crear_cliente ClienteCreate
  | Actualizar_cliente int ClienteUpdate
  | Eliminar_cliente int
  | Crear_producto ProductoCreate
  | Actualizar_producto int ProductoUpdate
  | Eliminar_producto int
  | Crear_venta VentaCreate
  | Actualizar_venta int VentaUpdate
  | Eliminar_venta int
  | Crear_detalle DetalleVentaCreateStandalone
  | Actualizar_detalle int DetalleVentaUpdate
  | Eliminar_detalle int

fun handle :: "db \<Rightarrow> datetime \<Rightarrow> (nat \<Rightarrow> string) \<Rightarrow> request \<Rightarrow> db" where
  "handle s now uuid4 (Crear_cliente data) = get_db s (\<lambda>db. create_cliente db now uuid4 data)"
| "handle s now uuid4 (Actualizar_cliente i data) = get_db s (\<lambda>db. update_cliente db now i data)"
| "handle s now uuid4 (Eliminar_cliente i) = get_db s (\<lambda>db. delete_cliente db i)"
| "handle s now uuid4 (Crear_producto data) = get_db s (\<lambda>db. create_producto db now uuid4 data)"
| "handle s now uuid4 (Actualizar_producto i data) = get_db s (\<lambda>db. update_producto db now i data)"
| "handle s now uuid4 (Eliminar_producto i) = get_db s (\<lambda>db. delete_producto db i)"
| "handle s now uuid4 (Crear_venta data) = get_db s (\<lambda>db. create_venta db now uuid4 data)"
| "handle s now uuid4 (Actualizar_venta i data) = get_db s (\<lambda>db. update_venta db now i data)"
| "handle s now uuid4 (Eliminar_venta i) = get_db s (\<lambda>db. delete_venta db i)"
| "handle s now uuid4 (Crear_detalle data) = get_db s (\<lambda>db. create_detalle db now uuid4 data)"
| "handle s now uuid4 (Actualizar_detalle i data) = get_db s (\<lambda>db. update_detalle db now i data)"
| "handle s now uuid4 (Eliminar_detalle i) = get_db s (\<lambda>db. delete_detalle db now i)"

fun run :: "db \<Rightarrow> (datetime \<times> (nat \<Rightarrow> string) \<times> request) list \<Rightarrow> db" where
  "run s [] = s"
| "run s ((now, uuid4, req) # rest) = run (handle s now uuid4 req) rest"

subsection \<open>Consistency of a database\<close>

text \<open>Primary keys are unique, foreign keys point at rows that exist, and every sale
  stores the total that \<^verbatim>\<open>_recalcular_total_venta\<close> would compute for it.\<close>

definition ids_ok :: "db \<Rightarrow> bool" where
  "ids_ok s = (distinct (map c_id (clientes s)) \<and> distinct (map p_id (productos s))
     \<and> distinct (map v_id (ventas s)) \<and> distinct (map d_id (detalles_ventas s)))"

definition fk_ok :: "db \<Rightarrow> bool" where
  "fk_ok s = (list_all (\<lambda>v. v_cliente_id v \<in> set (map c_id (clientes s))) (ventas s)
     \<and> list_all (\<lambda>d. d_venta_id d \<in> set (map v_id (ventas s))) (detalles_ventas s)
     \<and> list_all (\<lambda>d. d_producto_id d \<in> set (map p_id (productos s))) (detalles_ventas s))"

definition detalles_de :: "db \<Rightarrow> int \<Rightarrow> DetalleVenta list" where
  "detalles_de s venta_id = filter (\<lambda>d. d_venta_id d = venta_id) (detalles_ventas s)"

definition totals_ok :: "db \<Rightarrow> bool" where
  "totals_ok s =
     list_all (\<lambda>v. v_total v = coalesce (sql_sum (map subtotal (detalles_de s (v_id v)))) 0)
       (ventas s)"

text \<open>The same for every sale but the one with the given id: the state between the
  write of a line item and the recomputation of its sale's total.\<close>

definition totals_ok_but :: "db \<Rightarrow> int \<Rightarrow> bool" where
  "totals_ok_but s venta_id =
     list_all (\<lambda>v. v_id v = venta_id
                  \<or> v_total v = coalesce (sql_sum (map subtotal (detalles_de s (v_id v)))) 0)
       (ventas s)"

definition consistent :: "db \<Rightarrow> bool" where
  "consistent s = (ids_ok s \<and> fk_ok s \<and> totals_ok s)"

definition no_nulls :: "db \<Rightarrow> bool" where
  "no_nulls s = list_all (\<lambda>d. d_descuento d \<noteq> None \<and> d_cantidad d \<noteq> None) (detalles_ventas s)"

text \<open>The sum of \<^verbatim>\<open>(precio - descuento) * cantidad\<close> in integer arithmetic: it has a
  value when every line item has a discount and a quantity.\<close>

definition line_total :: "DetalleVenta list \<Rightarrow> int option" where
  "line_total ds = map_option sum_list (those (map subtotal ds))"

text \<open>A request that does not give an explicit null for the discount or the quantity of
  a line item.\<close>

fun sin_null :: "request \<Rightarrow> bool" where
  "sin_null (Actualizar_detalle i data) =
     (du_descuento data \<noteq> Given None \<and> du_cantidad data \<noteq> Given None)"
| "sin_null req = True"

subsection \<open>What a partial update asks for\<close>

text \<open>A field of the stored row agrees with the request: an unset field keeps its prior
  value, a given field holds the value given.\<close>

definition applied :: "'a option field \<Rightarrow> 'a \<Rightarrow> 'a \<Rightarrow> bool" where
  "applied f old new = (case f of Unset \<Rightarrow> new = old | Given x \<Rightarrow> x = Some new)"

definition applied_nullable :: "'a option field \<Rightarrow> 'a option \<Rightarrow> 'a option \<Rightarrow> bool" where
  "applied_nullable f old new = (case f of Unset \<Rightarrow> new = old | Given x \<Rightarrow> new = x)"

subsection \<open>What the reports are about\<close>





subsection \<open>Example databases\<close>

definition ejemplo_cliente :: "int \<Rightarrow> string \<Rightarrow> Cliente" where
  "ejemplo_cliente i nombre = \<lparr>c_id = i, c_uuid = CHR ''c'' # nombre, c_nombre = nombre,
     c_email = nombre @ ''@x'', c_rut = nombre, c_created_at = 0, c_modified_at = 0\<rparr>"

definition ejemplo_producto :: "int \<Rightarrow> string \<Rightarrow> Producto" where
  "ejemplo_producto i nombre = \<lparr>p_id = i, p_uuid = CHR ''p'' # nombre, p_nombre = nombre,
     p_categoria = None, p_precio = 100, p_created_at = 0, p_modified_at = 0\<rparr>"

definition ejemplo_venta :: "int \<Rightarrow> int \<Rightarrow> int \<Rightarrow> Venta" where
  "ejemplo_venta i cliente_id tot = \<lparr>v_id = i, v_uuid = replicate (nat i) CHR ''v'', v_fecha = 0,
     v_total = tot, v_created_at = 0, v_modified_at = 0, v_cliente_id = cliente_id\<rparr>"

definition ejemplo_detalle :: "int \<Rightarrow> int \<Rightarrow> int \<Rightarrow> int \<Rightarrow> int option \<Rightarrow> int option \<Rightarrow> DetalleVenta" where
  "ejemplo_detalle i producto_id venta_id precio descuento cantidad =
     \<lparr>d_id = i, d_uuid = replicate (nat i) CHR ''d'', d_producto_id = producto_id,
      d_venta_id = venta_id, d_precio = precio, d_descuento = descuento, d_cantidad = cantidad,
      d_created_at = 0, d_modified_at = 0\<rparr>"

text \<open>One customer, one product, one sale with the line item
  \<^verbatim>\<open>{precio=100, descuento=10, cantidad=2}\<close>.\<close>

definition db_una_venta :: db where
  "db_una_venta = \<lparr>clientes = [ejemplo_cliente 1 ''Ana''],
     productos = [ejemplo_producto 1 ''Pan''],
     ventas = [ejemplo_venta 1 1 180],
     detalles_ventas = [ejemplo_detalle 1 1 1 100 (Some 10) (Some 2)]\<rparr>"

text \<open>One customer and one product, no sale.\<close>

definition db_sin_ventas :: db where
  "db_sin_ventas = \<lparr>clientes = [ejemplo_cliente 1 ''Ana''],
     productos = [ejemplo_producto 1 ''Pan''], ventas = [], detalles_ventas = []\<rparr>"


text \<open>Two customers: Luis with one sale, Ana with three.\<close>

definition db_clientes :: db where
  "db_clientes = \<lparr>clientes = [ejemplo_cliente 1 ''Luis'', ejemplo_cliente 2 ''Ana''],
     productos = [ejemplo_producto 1 ''Pan''],
     ventas = [ejemplo_venta 1 1 500, ejemplo_venta 2 2 180, ejemplo_venta 3 2 0,
               ejemplo_venta 4 2 20],
     detalles_ventas = [ejemplo_detalle 1 1 1 100 (Some 0) (Some 5),
                        ejemplo_detalle 2 1 2 100 (Some 10) (Some 2),
                        ejemplo_detalle 3 1 4 10 (Some 0) (Some 2)]\<rparr>"

text \<open>The requests that build \<open>db_una_venta\<close> from the empty database, and a fourth one
  that updates the line item with an explicit null discount.\<close>

definition peticiones_una_venta :: "(datetime \<times> (nat \<Rightarrow> string) \<times> request) list" where
  "peticiones_una_venta =
     [(0, (\<lambda>i. ''cAna''), Crear_cliente \<lparr>cc_nombre = ''Ana'', cc_email = ''Ana@x'', cc_rut = ''Ana''\<rparr>),
      (0, (\<lambda>i. ''pPan''), Crear_producto \<lparr>pc_nombre = ''Pan'', pc_categoria = None, pc_precio = 100\<rparr>),
      (0, (\<lambda>i. if i = 0 then ''v'' else ''d''),
          Crear_venta \<lparr>vc_cliente_id = 1, vc_detalles =
            [\<lparr>dc_producto_id = 1, dc_precio = 100, dc_descuento = 10, dc_cantidad = 2\<rparr>]\<rparr>)]"

definition peticion_descuento_null :: "datetime \<times> (nat \<Rightarrow> string) \<times> request" where
  "peticion_descuento_null =
     (5, (\<lambda>i. []), Actualizar_detalle 1
        \<lparr>du_precio = Unset, du_descuento = Given None, du_cantidad = Unset\<rparr>)"

section \<open>Properties\<close>

subsection \<open>Keys, lookups and the steps of the engine\<close>

lemma fold_max_ge: "a \<le> fold max xs a \<and> (\<forall>y\<in>set xs. y \<le> fold max xs (a::int))"
proof (induction xs arbitrary: a)
  case Nil show ?case by simp
next
  case (Cons z zs)
  show ?case using Cons[of "max z a"] by auto
qed

lemma next_id_gt: "x \<in> set ids \<Longrightarrow> x < next_id ids"
  using fold_max_ge by (cases ids) (auto simp: next_id_def intro: le_less_trans)

lemma next_id_fresh: "next_id ids \<notin> set ids"
  using next_id_gt by blast

lemma find_map_replace:
  "find (\<lambda>x. f x = i) xs = Some y \<Longrightarrow> f z = i \<Longrightarrow>
   find (\<lambda>x. f x = i) (map (\<lambda>x. if f x = i then z else x) xs) = Some z"
  by (induction xs) (auto split: if_splits)

lemma find_filter_neq: "find (\<lambda>x. f x = i) (filter (\<lambda>x. f x \<noteq> i) xs) = None"
  by (induction xs) auto

lemma find_append_fresh:
  "i \<notin> f ` set xs \<Longrightarrow> f z = i \<Longrightarrow> find (\<lambda>x. f x = i) (xs @ [z]) = Some z"
  by (induction xs) auto

lemma add_detalle_Inr:
  assumes "add_detalle s now u pid vid pr de ca = Inr (s', d)"
  shows "clientes s' = clientes s" "productos s' = productos s" "ventas s' = ventas s"
    "detalles_ventas s' = detalles_ventas s @ [d]"
    "d_venta_id d = vid" "d_producto_id d = pid" "d_precio d = pr"
    "d_descuento d = Some de" "d_cantidad d = Some ca"
    "d_id d = next_id (map d_id (detalles_ventas s))"
    "pid \<in> p_id ` set (productos s)" "vid \<in> v_id ` set (ventas s)"
  using assms by (auto simp: add_detalle_def Let_def split: if_splits)

lemma create_venta_loop_Inr:
  "create_venta_loop s now uuid4 vid i tot dets = Inr (s', t) \<Longrightarrow>
   clientes s' = clientes s \<and> productos s' = productos s \<and> ventas s' = ventas s \<and>
   t = tot + (\<Sum>det\<leftarrow>dets. (dc_precio det - dc_descuento det) * dc_cantidad det) \<and>
   (\<exists>new. detalles_ventas s' = detalles_ventas s @ new \<and>
      map d_venta_id new = map (\<lambda>_. vid) dets \<and>
      map d_producto_id new = map dc_producto_id dets \<and>
      map d_precio new = map dc_precio dets \<and>
      map d_descuento new = map (\<lambda>det. Some (dc_descuento det)) dets \<and>
      map d_cantidad new = map (\<lambda>det. Some (dc_cantidad det)) dets)"
proof (induction dets arbitrary: s i tot)
  case Nil
  then show ?case by simp
next
  case (Cons det dets)
  from Cons.prems obtain s1 d where
    a: "add_detalle s now (uuid4 i) (dc_producto_id det) vid (dc_precio det) (dc_descuento det) (dc_cantidad det) = Inr (s1, d)"
    and r: "create_venta_loop s1 now uuid4 vid (Suc i) (tot + (dc_precio det - dc_descuento det) * dc_cantidad det) dets = Inr (s', t)"
    by (auto simp: Let_def split: sum.splits)
  note A = add_detalle_Inr[OF a]
  from Cons.IH[OF r] obtain new where
    n: "clientes s' = clientes s1" "productos s' = productos s1" "ventas s' = ventas s1"
       "t = tot + (dc_precio det - dc_descuento det) * dc_cantidad det + (\<Sum>det\<leftarrow>dets. (dc_precio det - dc_descuento det) * dc_cantidad det)"
       "detalles_ventas s' = detalles_ventas s1 @ new"
       "map d_venta_id new = map (\<lambda>_. vid) dets"
       "map d_producto_id new = map dc_producto_id dets"
       "map d_precio new = map dc_precio dets"
       "map d_descuento new = map (\<lambda>det. Some (dc_descuento det)) dets"
       "map d_cantidad new = map (\<lambda>det. Some (dc_cantidad det)) dets"
    by blast
  show ?case
    using n A by (intro conjI exI[of _ "d # new"]) simp_all
qed

lemma set_total_simps:
  "clientes (fst (set_total s now v x)) = clientes s"
  "productos (fst (set_total s now v x)) = productos s"
  "detalles_ventas (fst (set_total s now v x)) = detalles_ventas s"
  "v_total (snd (set_total s now v x)) = x"
  "v_id (snd (set_total s now v x)) = v_id v"
  "v_cliente_id (snd (set_total s now v x)) = v_cliente_id v"
  by (simp_all add: set_total_def Let_def)


lemma add_venta_Inr:
  assumes "add_venta s now u cid = Inr (s', v)"
  shows "clientes s' = clientes s" "productos s' = productos s" "detalles_ventas s' = detalles_ventas s"
    "ventas s' = ventas s @ [v]" "v_id v = next_id (map v_id (ventas s))" "v_total v = 0"
    "v_cliente_id v = cid" "cid \<in> c_id ` set (clientes s)" "get_venta s' (v_id v) = Some v"
  using assms next_id_fresh[of "map v_id (ventas s)"]
  by (auto simp: add_venta_def Let_def get_venta_def find_append_fresh split: if_splits)

lemmas ejemplo_defs = ejemplo_cliente_def ejemplo_producto_def ejemplo_venta_def ejemplo_detalle_def

subsection \<open>Creating a sale\<close>



lemma run_ok: "run empty_db peticiones_una_venta = db_una_venta"
  by (simp add: peticiones_una_venta_def empty_db_def db_una_venta_def ejemplo_defs get_db_def
      create_cliente_def add_cliente_def create_producto_def add_producto_def create_venta_def
      add_venta_def add_detalle_def set_total_def next_id_def Let_def)

lemma error_eq [simp]: "(e::error) = IntegrityError"
  by (cases e) simp

lemma next_id_neq: "x \<in> set xs \<Longrightarrow> f x \<noteq> next_id (map f xs)"
  using next_id_gt[of "f x" "map f xs"] by auto

lemma find_SomeD: "find (\<lambda>x. f x = i) xs = Some y \<Longrightarrow> f y = i \<and> y \<in> set xs"
  by (induction xs) (auto split: if_splits)

lemma find_map_replace':
  "find (\<lambda>x. f x = i) xs = Some y \<Longrightarrow> f z = f y \<Longrightarrow>
   find (\<lambda>x. f x = i) (map (\<lambda>x. if f x = i then z else x) xs) = Some z"
  using find_map_replace[of f i xs y z] find_SomeD[of f i xs y] by simp

lemma find_map_replace_other:
  "f z = i \<Longrightarrow> j \<noteq> i \<Longrightarrow>
   find (\<lambda>x. f x = j) (map (\<lambda>x. if f x = i then z else x) xs) = find (\<lambda>x. f x = j) xs"
  by (induction xs) auto

text \<open>
  C9. Given an existing customer and an unused identifier, \<^verbatim>\<open>create_venta\<close> with an
  empty list of line items succeeds: the sale is stored with total 0 and no line item
  belongs to it.
\<close>

theorem create_venta_sin_detalles:
  assumes "fk_ok s" and "vc_cliente_id data \<in> set (map c_id (clientes s))"
    and "uuid4 0 \<notin> set (map v_uuid (ventas s))" and "vc_detalles data = []"
  shows "\<exists>s' venta. create_venta s now uuid4 data = Inr (s', venta) \<and> v_total venta = 0
           \<and> get_venta s' (v_id venta) = Some venta \<and> detalles_de s' (v_id venta) = []"
proof -
  obtain s1 v1 where a: "add_venta s now (uuid4 0) (vc_cliente_id data) = Inr (s1, v1)"
    using assms(2,3) by (simp add: add_venta_def Let_def)
  note A = add_venta_Inr[OF a]
  have c: "create_venta s now uuid4 data = Inr (set_total s1 now v1 0)"
    using a assms(4) by (simp add: create_venta_def)
  have st: "set_total s1 now v1 0 = (s1, v1)"
    using A(4,6) next_id_neq[of _ "ventas s" v_id] A(5)
    by (auto simp: set_total_def Let_def intro!: db.equality map_idI)
  have "d_venta_id d \<noteq> v_id v1" if "d \<in> set (detalles_ventas s)" for d
  proof -
    from assms(1) that have "d_venta_id d \<in> set (map v_id (ventas s))"
      by (simp add: fk_ok_def list_all_iff)
    then show ?thesis using next_id_fresh[of "map v_id (ventas s)"] A(5) by auto
  qed
  then have "detalles_de s1 (v_id v1) = []"
    by (auto simp: detalles_de_def A(3) filter_empty_conv)
  then show ?thesis using c st A(6,9) by simp
qed

theorem create_venta_sin_detalles_witness:
  "fk_ok db_sin_ventas
   \<and> (\<exists>s' venta. create_venta db_sin_ventas 3 (\<lambda>i. ''v'') \<lparr>vc_cliente_id = 1, vc_detalles = []\<rparr>
          = Inr (s', venta) \<and> v_total venta = 0
        \<and> get_venta s' (v_id venta) = Some venta \<and> detalles_de s' (v_id venta) = [])"
  using create_venta_sin_detalles[of db_sin_ventas "\<lparr>vc_cliente_id = 1, vc_detalles = []\<rparr>"
      "\<lambda>i. ''v''" 3]
  by (simp add: fk_ok_def db_sin_ventas_def ejemplo_defs)

subsection \<open>Updating the header of a sale\<close>

lemma update_venta_Inr:
  assumes "update_venta s now i data = Inr (s', r)"
  shows "(s' = s \<and> r = get_venta s i) \<or>
         (\<exists>v c. get_venta s i = Some v \<and> r = Some (v\<lparr>v_cliente_id := c, v_modified_at := now\<rparr>)
            \<and> vu_cliente_id data = Given (Some c) \<and> c \<in> c_id ` set (clientes s)
            \<and> s' = s\<lparr>ventas := map (\<lambda>x. if v_id x = i
                 then v\<lparr>v_cliente_id := c, v_modified_at := now\<rparr> else x) (ventas s)\<rparr>)"
proof (cases "get_venta s i")
  case None
  then show ?thesis using assms by (simp add: update_venta_def)
next
  case (Some v)
  show ?thesis
  proof (cases "vu_cliente_id data")
    case Unset
    then show ?thesis using assms Some by (simp add: update_venta_def required_def)
  next
    case (Given x)
    show ?thesis
    proof (cases x)
      case None
      then show ?thesis using assms Some Given by (simp add: update_venta_def required_def)
    next
      case (Some c)
      then show ?thesis using assms \<open>get_venta s i = Some v\<close> Given
        by (auto simp: update_venta_def required_def Let_def split: if_splits)
    qed
  qed
qed

text \<open>
  C10. The partial update of a sale header never changes a stored total: whatever the
  request, the total looked up under any sale id is the same before and after, and the
  sale the update returns carries the total it had.
\<close>

theorem update_venta_keeps_total:
  "map_option v_total (get_venta (handle s now uuid4 (Actualizar_venta i data)) j)
     = map_option v_total (get_venta s j)
   \<and> (\<forall>s' v'. update_venta s now i data = Inr (s', Some v') \<longrightarrow>
        (\<exists>v. get_venta s i = Some v \<and> v_total v' = v_total v \<and> get_venta s' i = Some v'))"
proof -
  have r: "\<exists>v. get_venta s i = Some v \<and> v_total v' = v_total v \<and> get_venta s' i = Some v'"
    if u: "update_venta s now i data = Inr (s', Some v')" for s' v'
  proof -
    from update_venta_Inr[OF u] show ?thesis
    proof
      assume a: "s' = s \<and> Some v' = get_venta s i"
      have g: "get_venta s i = Some v'" using a[THEN conjunct2, symmetric] .
      have e: "s' = s" using a by simp
      show ?thesis unfolding e using g by simp
    next
      assume "\<exists>v c. get_venta s i = Some v \<and> Some v' = Some (v\<lparr>v_cliente_id := c, v_modified_at := now\<rparr>)
            \<and> vu_cliente_id data = Given (Some c) \<and> c \<in> c_id ` set (clientes s)
            \<and> s' = s\<lparr>ventas := map (\<lambda>x. if v_id x = i
                 then v\<lparr>v_cliente_id := c, v_modified_at := now\<rparr> else x) (ventas s)\<rparr>"
      then obtain v c where v: "get_venta s i = Some v"
        and v': "v' = v\<lparr>v_cliente_id := c, v_modified_at := now\<rparr>"
        and s': "s' = s\<lparr>ventas := map (\<lambda>x. if v_id x = i
                 then v\<lparr>v_cliente_id := c, v_modified_at := now\<rparr> else x) (ventas s)\<rparr>"
        by auto
      have "get_venta s' i = Some v'"
        using v unfolding s' v' get_venta_def by (auto intro!: find_map_replace')
      then show ?thesis using v v' by simp
    qed
  qed
  have l: "map_option v_total (get_venta (handle s now uuid4 (Actualizar_venta i data)) j)
     = map_option v_total (get_venta s j)"
  proof (cases "update_venta s now i data")
    case (Inl e)
    then show ?thesis by (simp add: get_db_def)
  next
    case (Inr p)
    obtain s' r where p: "p = (s', r)" by (cases p)
    have h: "handle s now uuid4 (Actualizar_venta i data) = s'"
      using Inr p by (simp add: get_db_def)
    from update_venta_Inr[OF Inr[unfolded p]] show ?thesis
    proof
      assume "s' = s \<and> r = get_venta s i"
      then show ?thesis using h by simp
    next
      assume "\<exists>v c. get_venta s i = Some v \<and> r = Some (v\<lparr>v_cliente_id := c, v_modified_at := now\<rparr>)
            \<and> vu_cliente_id data = Given (Some c) \<and> c \<in> c_id ` set (clientes s)
            \<and> s' = s\<lparr>ventas := map (\<lambda>x. if v_id x = i
                 then v\<lparr>v_cliente_id := c, v_modified_at := now\<rparr> else x) (ventas s)\<rparr>"
      then obtain v c where v: "get_venta s i = Some v"
        and s': "s' = s\<lparr>ventas := map (\<lambda>x. if v_id x = i
                 then v\<lparr>v_cliente_id := c, v_modified_at := now\<rparr> else x) (ventas s)\<rparr>"
        by blast
      have vi: "v_id v = i" using v find_SomeD[of v_id i "ventas s" v] by (simp add: get_venta_def)
      show ?thesis
      proof (cases "j = i")
        case True
        have "get_venta s' i = Some (v\<lparr>v_cliente_id := c, v_modified_at := now\<rparr>)"
          using v unfolding s' get_venta_def by (auto intro!: find_map_replace')
        then show ?thesis using True v h by simp
      next
        case False
        have "get_venta s' j = get_venta s j"
          unfolding s' get_venta_def using False vi by (simp add: find_map_replace_other)
        then show ?thesis using h by simp
      qed
    qed
  qed
  show ?thesis using l r by blast
qed

theorem update_venta_keeps_total_witness:
  "update_venta db_clientes 7 1 \<lparr>vu_cliente_id = Given (Some 2)\<rparr>
     = Inr (db_clientes\<lparr>ventas := [(ejemplo_venta 1 1 500)\<lparr>v_cliente_id := 2, v_modified_at := 7\<rparr>,
              ejemplo_venta 2 2 180, ejemplo_venta 3 2 0, ejemplo_venta 4 2 20]\<rparr>,
            Some ((ejemplo_venta 1 1 500)\<lparr>v_cliente_id := 2, v_modified_at := 7\<rparr>))
   \<and> map_option v_total (get_venta (handle db_clientes 7 (\<lambda>i. [])
         (Actualizar_venta 1 \<lparr>vu_cliente_id = Given (Some 2)\<rparr>)) 1) = Some 500"
proof -
  have e: "update_venta db_clientes 7 1 \<lparr>vu_cliente_id = Given (Some 2)\<rparr>
     = Inr (db_clientes\<lparr>ventas := [(ejemplo_venta 1 1 500)\<lparr>v_cliente_id := 2, v_modified_at := 7\<rparr>,
              ejemplo_venta 2 2 180, ejemplo_venta 3 2 0, ejemplo_venta 4 2 20]\<rparr>,
            Some ((ejemplo_venta 1 1 500)\<lparr>v_cliente_id := 2, v_modified_at := 7\<rparr>))"
    by (simp add: update_venta_def get_venta_def required_def db_clientes_def ejemplo_defs Let_def)
  have g: "map_option v_total (get_venta db_clientes 1) = Some 500"
    by (simp add: get_venta_def db_clientes_def ejemplo_defs)
  from update_venta_keeps_total[of db_clientes 7 "\<lambda>i. []" 1 "\<lparr>vu_cliente_id = Given (Some 2)\<rparr>" 1]
  show ?thesis using e g by simp
qed

subsection \<open>Foreign keys\<close>

lemma create_venta_loop_bad_producto:
  "\<exists>det\<in>set dets. dc_producto_id det \<notin> p_id ` set (productos s) \<Longrightarrow>
   create_venta_loop s now uuid4 vid i tot dets = Inl IntegrityError"
proof (induction dets arbitrary: s i tot)
  case Nil
  then show ?case by simp
next
  case (Cons det dets)
  show ?case
  proof (cases "add_detalle s now (uuid4 i) (dc_producto_id det) vid (dc_precio det)
                (dc_descuento det) (dc_cantidad det)")
    case (Inl e)
    then show ?thesis by (simp add: Let_def)
  next
    case (Inr p)
    obtain s1 d where p: "p = (s1, d)" by (cases p)
    note A = add_detalle_Inr[OF Inr[unfolded p]]
    have "\<exists>det\<in>set dets. dc_producto_id det \<notin> p_id ` set (productos s1)"
      using Cons.prems A(1-3,11) by auto
    from Cons.IH[OF this] show ?thesis using Inr p by (simp add: Let_def)
  qed
qed

text \<open>
  C8. \<^verbatim>\<open>create_venta\<close> for a customer that does not exist, \<^verbatim>\<open>create_venta\<close> with a line
  item for a product that does not exist, and \<^verbatim>\<open>create_detalle\<close> for a product or a sale
  that does not exist fail with \<open>IntegrityError\<close>, and the request leaves the database as
  it was: neither the sale nor any line item is stored.
\<close>

theorem foreign_keys_enforced:
  "(vc_cliente_id data \<notin> set (map c_id (clientes s)) \<longrightarrow>
      create_venta s now uuid4 data = Inl IntegrityError
      \<and> handle s now uuid4 (Crear_venta data) = s)
   \<and> ((\<exists>det\<in>set (vc_detalles data). dc_producto_id det \<notin> set (map p_id (productos s))) \<longrightarrow>
      create_venta s now uuid4 data = Inl IntegrityError
      \<and> handle s now uuid4 (Crear_venta data) = s)
   \<and> (ds_producto_id d \<notin> set (map p_id (productos s)) \<or> ds_venta_id d \<notin> set (map v_id (ventas s)) \<longrightarrow>
      create_detalle s now uuid4 d = Inl IntegrityError
      \<and> handle s now uuid4 (Crear_detalle d) = s)"
proof -
  have h: "handle s now uuid4 (Crear_venta data) = s" if "create_venta s now uuid4 data = Inl IntegrityError"
    using that by (simp add: get_db_def)
  have a: "create_venta s now uuid4 data = Inl IntegrityError"
    if "vc_cliente_id data \<notin> set (map c_id (clientes s))"
    using that by (simp add: create_venta_def add_venta_def)
  have b: "create_venta s now uuid4 data = Inl IntegrityError"
    if bad: "\<exists>det\<in>set (vc_detalles data). dc_producto_id det \<notin> set (map p_id (productos s))"
  proof (cases "add_venta s now (uuid4 0) (vc_cliente_id data)")
    case (Inl e)
    then show ?thesis by (simp add: create_venta_def)
  next
    case (Inr p)
    obtain s1 v where p: "p = (s1, v)" by (cases p)
    note A = add_venta_Inr[OF Inr[unfolded p]]
    have "\<exists>det\<in>set (vc_detalles data). dc_producto_id det \<notin> p_id ` set (productos s1)"
      using bad A(2) by simp
    from create_venta_loop_bad_producto[OF this]
    show ?thesis using Inr p by (simp add: create_venta_def)
  qed
  have c: "create_detalle s now uuid4 d = Inl IntegrityError"
    if "ds_producto_id d \<notin> set (map p_id (productos s)) \<or> ds_venta_id d \<notin> set (map v_id (ventas s))"
    using that by (auto simp: create_detalle_def add_detalle_def)
  have hc: "handle s now uuid4 (Crear_detalle d) = s" if "create_detalle s now uuid4 d = Inl IntegrityError"
    using that by (simp add: get_db_def)
  show ?thesis using a b c h hc by blast
qed

theorem foreign_keys_enforced_witness:
  "create_venta db_sin_ventas 0 (\<lambda>i. ''v'') \<lparr>vc_cliente_id = 9, vc_detalles = []\<rparr> = Inl IntegrityError
   \<and> create_venta db_sin_ventas 0 (\<lambda>i. if i = 0 then ''v'' else ''d'')
        \<lparr>vc_cliente_id = 1, vc_detalles =
           [\<lparr>dc_producto_id = 7, dc_precio = 100, dc_descuento = 10, dc_cantidad = 2\<rparr>]\<rparr>
        = Inl IntegrityError
   \<and> handle db_sin_ventas 0 (\<lambda>i. if i = 0 then ''v'' else ''d'')
        (Crear_venta \<lparr>vc_cliente_id = 1, vc_detalles =
           [\<lparr>dc_producto_id = 7, dc_precio = 100, dc_descuento = 10, dc_cantidad = 2\<rparr>]\<rparr>)
        = db_sin_ventas
   \<and> create_detalle db_una_venta 0 (\<lambda>i. ''x'')
        \<lparr>ds_producto_id = 1, ds_precio = 5, ds_descuento = 0, ds_cantidad = 1, ds_venta_id = 4\<rparr>
        = Inl IntegrityError
   \<and> create_detalle db_una_venta 0 (\<lambda>i. ''x'')
        \<lparr>ds_producto_id = 3, ds_precio = 5, ds_descuento = 0, ds_cantidad = 1, ds_venta_id = 1\<rparr>
        = Inl IntegrityError"
  using foreign_keys_enforced[of "\<lparr>vc_cliente_id = 9, vc_detalles = []\<rparr>" db_sin_ventas 0 "\<lambda>i. ''v''"]
    foreign_keys_enforced[of "\<lparr>vc_cliente_id = 1, vc_detalles =
           [\<lparr>dc_producto_id = 7, dc_precio = 100, dc_descuento = 10, dc_cantidad = 2\<rparr>]\<rparr>"
        db_sin_ventas 0 "\<lambda>i. if i = 0 then ''v'' else ''d''"]
    foreign_keys_enforced[of _ db_una_venta 0 "\<lambda>i. ''x''"
        "\<lparr>ds_producto_id = 1, ds_precio = 5, ds_descuento = 0, ds_cantidad = 1, ds_venta_id = 4\<rparr>"]
    foreign_keys_enforced[of _ db_una_venta 0 "\<lambda>i. ''x''"
        "\<lparr>ds_producto_id = 3, ds_precio = 5, ds_descuento = 0, ds_cantidad = 1, ds_venta_id = 1\<rparr>"]
  by (simp add: db_sin_ventas_def db_una_venta_def ejemplo_defs)

subsection \<open>Deleting\<close>

lemma recalcular_frame:
  "clientes (recalcular_total_venta s now i) = clientes s"
  "productos (recalcular_total_venta s now i) = productos s"
  "detalles_ventas (recalcular_total_venta s now i) = detalles_ventas s"
  by (simp_all add: recalcular_total_venta_def set_total_def Let_def split: option.splits)

lemma find_Some_ex: "find P xs \<noteq> None \<longleftrightarrow> (\<exists>x\<in>set xs. P x)"
  by (induction xs) auto

text \<open>
  C7. Deleting a customer deletes the customer, every sale the customer owns and every
  line item of those sales; deleting a sale deletes the sale and its line items and leaves
  the other sales and their line items alone. Neither touches the products table.
\<close>

theorem delete_cascades:
  "(get_cliente s i \<noteq> None \<longrightarrow>
      (\<exists>s'. delete_cliente s i = Inr (s', True) \<and> get_cliente s' i = None
         \<and> ventas s' = filter (\<lambda>v. v_cliente_id v \<noteq> i) (ventas s)
         \<and> (\<forall>v\<in>set (ventas s). detalles_de s' (v_id v) =
               (if v_cliente_id v = i then [] else
                  filter (\<lambda>d. d_venta_id d \<notin> v_id ` {w \<in> set (ventas s). v_cliente_id w = i})
                    (detalles_de s (v_id v))))
         \<and> set (detalles_ventas s') \<subseteq> set (detalles_ventas s)
         \<and> productos s' = productos s))
   \<and> (get_venta s j \<noteq> None \<longrightarrow>
      (\<exists>s'. delete_venta s j = Inr (s', True) \<and> get_venta s' j = None
         \<and> detalles_de s' j = []
         \<and> (\<forall>k. k \<noteq> j \<longrightarrow> detalles_de s' k = detalles_de s k \<and> get_venta s' k = get_venta s k)
         \<and> productos s' = productos s \<and> clientes s' = clientes s))"
proof (intro conjI impI)
  assume "get_cliente s i \<noteq> None"
  then obtain c where c: "get_cliente s i = Some c" by auto
  let ?s' = "s\<lparr>clientes := filter (\<lambda>c. c_id c \<noteq> i) (clientes s),
                ventas := filter (\<lambda>v. v_cliente_id v \<noteq> i) (ventas s),
                detalles_ventas := filter (\<lambda>d. d_venta_id d \<notin>
                   set (map v_id (filter (\<lambda>v. v_cliente_id v = i) (ventas s)))) (detalles_ventas s)\<rparr>"
  have d: "delete_cliente s i = Inr (?s', True)"
    using c by (simp add: delete_cliente_def Let_def)
  have g: "get_cliente ?s' i = None"
    by (simp add: get_cliente_def find_filter_neq)
  have l: "\<forall>v\<in>set (ventas s). detalles_de ?s' (v_id v) =
               (if v_cliente_id v = i then [] else
                  filter (\<lambda>d. d_venta_id d \<notin> v_id ` {w \<in> set (ventas s). v_cliente_id w = i})
                    (detalles_de s (v_id v)))"
    by (auto simp: detalles_de_def filter_empty_conv intro!: filter_cong)
  show "\<exists>s'. delete_cliente s i = Inr (s', True) \<and> get_cliente s' i = None
         \<and> ventas s' = filter (\<lambda>v. v_cliente_id v \<noteq> i) (ventas s)
         \<and> (\<forall>v\<in>set (ventas s). detalles_de s' (v_id v) =
               (if v_cliente_id v = i then [] else
                  filter (\<lambda>d. d_venta_id d \<notin> v_id ` {w \<in> set (ventas s). v_cliente_id w = i})
                    (detalles_de s (v_id v))))
         \<and> set (detalles_ventas s') \<subseteq> set (detalles_ventas s)
         \<and> productos s' = productos s"
    using d g l by (intro exI[of _ ?s']) auto
next
  assume "get_venta s j \<noteq> None"
  then obtain v where v: "get_venta s j = Some v" by auto
  let ?s' = "s\<lparr>ventas := filter (\<lambda>v. v_id v \<noteq> j) (ventas s),
                detalles_ventas := filter (\<lambda>d. d_venta_id d \<noteq> j) (detalles_ventas s)\<rparr>"
  have d: "delete_venta s j = Inr (?s', True)"
    using v by (simp add: delete_venta_def)
  have g: "get_venta ?s' j = None"
    by (simp add: get_venta_def find_filter_neq)
  have f: "find (\<lambda>v. v_id v = k) (filter (\<lambda>v. v_id v \<noteq> j) xs) = find (\<lambda>v. v_id v = k) xs"
    if "k \<noteq> j" for k and xs :: "Venta list"
    using that by (induction xs) auto
  have o: "\<forall>k. k \<noteq> j \<longrightarrow> detalles_de ?s' k = detalles_de s k \<and> get_venta ?s' k = get_venta s k"
    by (auto simp: detalles_de_def get_venta_def f intro!: filter_cong)
  show "\<exists>s'. delete_venta s j = Inr (s', True) \<and> get_venta s' j = None
         \<and> detalles_de s' j = []
         \<and> (\<forall>k. k \<noteq> j \<longrightarrow> detalles_de s' k = detalles_de s k \<and> get_venta s' k = get_venta s k)
         \<and> productos s' = productos s \<and> clientes s' = clientes s"
    using d g o by (intro exI[of _ ?s']) (auto simp: detalles_de_def filter_empty_conv)
qed

theorem delete_cascades_witness:
  "get_cliente db_clientes 2 \<noteq> None
   \<and> delete_cliente db_clientes 2 =
       Inr (\<lparr>clientes = [ejemplo_cliente 1 ''Luis''], productos = [ejemplo_producto 1 ''Pan''],
             ventas = [ejemplo_venta 1 1 500],
             detalles_ventas = [ejemplo_detalle 1 1 1 100 (Some 0) (Some 5)]\<rparr>, True)
   \<and> get_venta db_una_venta 1 \<noteq> None
   \<and> delete_venta db_una_venta 1 =
       Inr (\<lparr>clientes = [ejemplo_cliente 1 ''Ana''], productos = [ejemplo_producto 1 ''Pan''],
             ventas = [], detalles_ventas = []\<rparr>, True)"
  using delete_cascades[of db_clientes 2 0] delete_cascades[of db_una_venta 0 1]
  by (simp add: db_clientes_def db_una_venta_def ejemplo_defs get_cliente_def get_venta_def
      delete_cliente_def delete_venta_def Let_def)




subsection \<open>Partial updates\<close>

lemma required_applied: "required f old = Inr v \<Longrightarrow> applied f old v"
  by (auto simp: required_def applied_def split: field.splits option.splits)

lemma nullable_applied: "applied_nullable f old (nullable f old)"
  by (simp add: nullable_def applied_nullable_def split: field.splits)

lemma update_cliente_frame:
  assumes g: "get_cliente s i = Some c" and u: "update_cliente s now i data = Inr (s', r)"
  shows "\<exists>c'. r = Some c' \<and> get_cliente s' i = Some c'
     \<and> c_id c' = c_id c \<and> c_uuid c' = c_uuid c \<and> c_created_at c' = c_created_at c
     \<and> applied (cu_nombre data) (c_nombre c) (c_nombre c')
     \<and> applied (cu_email data) (c_email c) (c_email c')
     \<and> applied (cu_rut data) (c_rut c) (c_rut c')
     \<and> c_modified_at c' = (if c'\<lparr>c_modified_at := c_modified_at c\<rparr> = c then c_modified_at c else now)
     \<and> (\<forall>k. k \<noteq> i \<longrightarrow> get_cliente s' k = get_cliente s k)"
proof -
  from u g obtain n e x where
    n: "required (cu_nombre data) (c_nombre c) = Inr n"
    and e: "required (cu_email data) (c_email c) = Inr e"
    and x: "required (cu_rut data) (c_rut c) = Inr x"
    by (auto simp: update_cliente_def split: sum.splits)
  let ?c' = "c\<lparr>c_nombre := n, c_email := e, c_rut := x\<rparr>"
  note ap = required_applied[OF n] required_applied[OF e] required_applied[OF x]
  have ci: "c_id c = i" using g find_SomeD[of c_id i "clientes s" c] by (simp add: get_cliente_def)
  show ?thesis
  proof (cases "?c' = c")
    case True
    then have "s' = s" "r = Some c"
      using u g n e x by (simp_all add: update_cliente_def Let_def)
    moreover have "c_nombre c = n" "c_email c = e" "c_rut c = x"
      using arg_cong[OF True, of c_nombre] arg_cong[OF True, of c_email]
        arg_cong[OF True, of c_rut] by simp_all
    ultimately show ?thesis using g ap by auto
  next
    case False
    let ?c'' = "?c'\<lparr>c_modified_at := now\<rparr>"
    have r: "r = Some ?c''"
      and s': "s' = s\<lparr>clientes := map (\<lambda>y. if c_id y = i then ?c'' else y) (clientes s)\<rparr>"
      using u g n e x False by (auto simp: update_cliente_def Let_def split: if_splits)
    have g': "get_cliente s' i = Some ?c''"
      using g unfolding s' get_cliente_def by (auto intro!: find_map_replace')
    have o: "\<forall>k. k \<noteq> i \<longrightarrow> get_cliente s' k = get_cliente s k"
      unfolding s' get_cliente_def using ci by (simp add: find_map_replace_other)
    have m: "?c''\<lparr>c_modified_at := c_modified_at c\<rparr> \<noteq> c"
      using False by simp
    show ?thesis using r g' o ap m by auto
  qed
qed

lemma update_producto_frame:
  assumes g: "get_producto s i = Some p" and u: "update_producto s now i data = Inr (s', r)"
  shows "\<exists>p'. r = Some p' \<and> get_producto s' i = Some p'
     \<and> p_id p' = p_id p \<and> p_uuid p' = p_uuid p \<and> p_created_at p' = p_created_at p
     \<and> applied (pu_nombre data) (p_nombre p) (p_nombre p')
     \<and> applied_nullable (pu_categoria data) (p_categoria p) (p_categoria p')
     \<and> applied (pu_precio data) (p_precio p) (p_precio p')
     \<and> p_modified_at p' = (if p'\<lparr>p_modified_at := p_modified_at p\<rparr> = p then p_modified_at p else now)
     \<and> (\<forall>k. k \<noteq> i \<longrightarrow> get_producto s' k = get_producto s k)"
proof -
  from u g obtain n x where
    n: "required (pu_nombre data) (p_nombre p) = Inr n"
    and x: "required (pu_precio data) (p_precio p) = Inr x"
    by (auto simp: update_producto_def split: sum.splits)
  let ?p' = "p\<lparr>p_nombre := n, p_categoria := nullable (pu_categoria data) (p_categoria p),
                p_precio := x\<rparr>"
  note ap = required_applied[OF n] required_applied[OF x]
    nullable_applied[of "pu_categoria data" "p_categoria p"]
  have pi: "p_id p = i" using g find_SomeD[of p_id i "productos s" p] by (simp add: get_producto_def)
  show ?thesis
  proof (cases "?p' = p")
    case True
    then have "s' = s" "r = Some p"
      using u g n x by (simp_all add: update_producto_def Let_def)
    moreover have "p_nombre p = n" "p_categoria p = nullable (pu_categoria data) (p_categoria p)"
      "p_precio p = x"
      using arg_cong[OF True, of p_nombre] arg_cong[OF True, of p_categoria]
        arg_cong[OF True, of p_precio] by simp_all
    ultimately show ?thesis using g ap by auto
  next
    case False
    let ?p'' = "?p'\<lparr>p_modified_at := now\<rparr>"
    have r: "r = Some ?p''"
      and s': "s' = s\<lparr>productos := map (\<lambda>y. if p_id y = i then ?p'' else y) (productos s)\<rparr>"
      using u g n x False by (auto simp: update_producto_def Let_def split: if_splits)
    have g': "get_producto s' i = Some ?p''"
      using g unfolding s' get_producto_def by (auto intro!: find_map_replace')
    have o: "\<forall>k. k \<noteq> i \<longrightarrow> get_producto s' k = get_producto s k"
      unfolding s' get_producto_def using pi by (simp add: find_map_replace_other)
    have m: "?p''\<lparr>p_modified_at := p_modified_at p\<rparr> \<noteq> p"
      using False by simp
    show ?thesis using r g' o ap m by auto
  qed
qed

lemma update_venta_frame:
  assumes g: "get_venta s i = Some v" and u: "update_venta s now i data = Inr (s', r)"
  shows "\<exists>v'. r = Some v' \<and> get_venta s' i = Some v'
     \<and> v_id v' = v_id v \<and> v_uuid v' = v_uuid v \<and> v_fecha v' = v_fecha v
     \<and> v_total v' = v_total v \<and> v_created_at v' = v_created_at v
     \<and> applied (vu_cliente_id data) (v_cliente_id v) (v_cliente_id v')
     \<and> v_modified_at v' = (if v'\<lparr>v_modified_at := v_modified_at v\<rparr> = v then v_modified_at v else now)
     \<and> (\<forall>k. k \<noteq> i \<longrightarrow> get_venta s' k = get_venta s k)"
proof -
  from u g obtain x where
    x: "required (vu_cliente_id data) (v_cliente_id v) = Inr x"
    by (auto simp: update_venta_def split: sum.splits)
  let ?v' = "v\<lparr>v_cliente_id := x\<rparr>"
  note ap = required_applied[OF x]
  have vi: "v_id v = i" using g find_SomeD[of v_id i "ventas s" v] by (simp add: get_venta_def)
  show ?thesis
  proof (cases "?v' = v")
    case True
    then have "s' = s" "r = Some v"
      using u g x by (simp_all add: update_venta_def Let_def)
    moreover have "v_cliente_id v = x"
      using arg_cong[OF True, of v_cliente_id] by simp
    ultimately show ?thesis using g ap by auto
  next
    case False
    let ?v'' = "?v'\<lparr>v_modified_at := now\<rparr>"
    have r: "r = Some ?v''"
      and s': "s' = s\<lparr>ventas := map (\<lambda>y. if v_id y = i then ?v'' else y) (ventas s)\<rparr>"
      using u g x False by (auto simp: update_venta_def Let_def split: if_splits)
    have g': "get_venta s' i = Some ?v''"
      using g unfolding s' get_venta_def by (auto intro!: find_map_replace')
    have o: "\<forall>k. k \<noteq> i \<longrightarrow> get_venta s' k = get_venta s k"
      unfolding s' get_venta_def using vi by (simp add: find_map_replace_other)
    have m: "?v''\<lparr>v_modified_at := v_modified_at v\<rparr> \<noteq> v"
      using False by simp
    show ?thesis using r g' o ap m by auto
  qed
qed

lemma update_detalle_frame:
  assumes g: "get_detalle s i = Some d" and u: "update_detalle s now i data = Inr (s', r)"
  shows "\<exists>d'. r = Some d' \<and> get_detalle s' i = Some d'
     \<and> d_id d' = d_id d \<and> d_uuid d' = d_uuid d \<and> d_producto_id d' = d_producto_id d
     \<and> d_venta_id d' = d_venta_id d \<and> d_created_at d' = d_created_at d
     \<and> applied (du_precio data) (d_precio d) (d_precio d')
     \<and> applied_nullable (du_descuento data) (d_descuento d) (d_descuento d')
     \<and> applied_nullable (du_cantidad data) (d_cantidad d) (d_cantidad d')
     \<and> d_modified_at d' = (if d'\<lparr>d_modified_at := d_modified_at d\<rparr> = d then d_modified_at d else now)
     \<and> (\<forall>k. k \<noteq> i \<longrightarrow> get_detalle s' k = get_detalle s k)"
proof -
  from u g obtain x where
    x: "required (du_precio data) (d_precio d) = Inr x"
    by (auto simp: update_detalle_def split: sum.splits)
  let ?d' = "d\<lparr>d_precio := x, d_descuento := nullable (du_descuento data) (d_descuento d),
                d_cantidad := nullable (du_cantidad data) (d_cantidad d)\<rparr>"
  let ?d'' = "if ?d' = d then d else ?d'\<lparr>d_modified_at := now\<rparr>"
  note ap = required_applied[OF x] nullable_applied[of "du_descuento data" "d_descuento d"]
    nullable_applied[of "du_cantidad data" "d_cantidad d"]
  have di: "d_id d = i" using g find_SomeD[of d_id i "detalles_ventas s" d] by (simp add: get_detalle_def)
  have r: "r = Some ?d''"
    and s': "s' = recalcular_total_venta
               (s\<lparr>detalles_ventas := map (\<lambda>y. if d_id y = i then ?d'' else y) (detalles_ventas s)\<rparr>)
               now (d_venta_id ?d'')"
    using u g x by (auto simp: update_detalle_def Let_def)
  have g': "get_detalle s' i = Some ?d''"
    using g unfolding s' get_detalle_def recalcular_frame by (auto intro!: find_map_replace')
  have o: "\<forall>k. k \<noteq> i \<longrightarrow> get_detalle s' k = get_detalle s k"
    unfolding s' get_detalle_def recalcular_frame using di by (simp add: find_map_replace_other)
  show ?thesis
  proof (cases "?d' = d")
    case True
    moreover have "d_precio d = x" "d_descuento d = nullable (du_descuento data) (d_descuento d)"
      "d_cantidad d = nullable (du_cantidad data) (d_cantidad d)"
      using arg_cong[OF True, of d_precio] arg_cong[OF True, of d_descuento]
        arg_cong[OF True, of d_cantidad] by simp_all
    ultimately show ?thesis using r g' o ap by auto
  next
    case False
    have m: "?d'\<lparr>d_modified_at := now, d_modified_at := d_modified_at d\<rparr> \<noteq> d"
      using False by simp
    show ?thesis using r g' o ap m False by auto
  qed
qed

text \<open>
  C5 (as amended). When a partial update of a customer, a product, a sale header or a line
  item is accepted, the row returned is the row stored, every field the request gives holds
  the value given, and every field the request leaves out keeps its prior value, except
  \<^verbatim>\<open>modified_at\<close>, which is set to the time of the update when some column changed; the
  other rows of the table are as they were. (An update that breaks a \<^verbatim>\<open>nullable=False\<close>,
  uniqueness or foreign-key rule is not accepted: it returns an error and the database is
  as it was.) The last theorem of the three is an update of a customer's name alone after
  which \<^verbatim>\<open>modified_at\<close> differs too.
\<close>

theorem partial_update_frame:
  "(get_cliente s i = Some c \<and> update_cliente s now i cu = Inr (sc, rc) \<longrightarrow>
      (\<exists>c'. rc = Some c' \<and> get_cliente sc i = Some c'
         \<and> c_id c' = c_id c \<and> c_uuid c' = c_uuid c \<and> c_created_at c' = c_created_at c
         \<and> applied (cu_nombre cu) (c_nombre c) (c_nombre c')
         \<and> applied (cu_email cu) (c_email c) (c_email c')
         \<and> applied (cu_rut cu) (c_rut c) (c_rut c')
         \<and> c_modified_at c' =
             (if c'\<lparr>c_modified_at := c_modified_at c\<rparr> = c then c_modified_at c else now)
         \<and> (\<forall>k. k \<noteq> i \<longrightarrow> get_cliente sc k = get_cliente s k)))
   \<and> (get_producto s i = Some p \<and> update_producto s now i pu = Inr (sp, rp) \<longrightarrow>
      (\<exists>p'. rp = Some p' \<and> get_producto sp i = Some p'
         \<and> p_id p' = p_id p \<and> p_uuid p' = p_uuid p \<and> p_created_at p' = p_created_at p
         \<and> applied (pu_nombre pu) (p_nombre p) (p_nombre p')
         \<and> applied_nullable (pu_categoria pu) (p_categoria p) (p_categoria p')
         \<and> applied (pu_precio pu) (p_precio p) (p_precio p')
         \<and> p_modified_at p' =
             (if p'\<lparr>p_modified_at := p_modified_at p\<rparr> = p then p_modified_at p else now)
         \<and> (\<forall>k. k \<noteq> i \<longrightarrow> get_producto sp k = get_producto s k)))
   \<and> (get_venta s i = Some v \<and> update_venta s now i vu = Inr (sv, rv) \<longrightarrow>
      (\<exists>v'. rv = Some v' \<and> get_venta sv i = Some v'
         \<and> v_id v' = v_id v \<and> v_uuid v' = v_uuid v \<and> v_fecha v' = v_fecha v
         \<and> v_total v' = v_total v \<and> v_created_at v' = v_created_at v
         \<and> applied (vu_cliente_id vu) (v_cliente_id v) (v_cliente_id v')
         \<and> v_modified_at v' =
             (if v'\<lparr>v_modified_at := v_modified_at v\<rparr> = v then v_modified_at v else now)
         \<and> (\<forall>k. k \<noteq> i \<longrightarrow> get_venta sv k = get_venta s k)))
   \<and> (get_detalle s i = Some d \<and> update_detalle s now i du = Inr (sd, rd) \<longrightarrow>
      (\<exists>d'. rd = Some d' \<and> get_detalle sd i = Some d'
         \<and> d_id d' = d_id d \<and> d_uuid d' = d_uuid d \<and> d_producto_id d' = d_producto_id d
         \<and> d_venta_id d' = d_venta_id d \<and> d_created_at d' = d_created_at d
         \<and> applied (du_precio du) (d_precio d) (d_precio d')
         \<and> applied_nullable (du_descuento du) (d_descuento d) (d_descuento d')
         \<and> applied_nullable (du_cantidad du) (d_cantidad d) (d_cantidad d')
         \<and> d_modified_at d' =
             (if d'\<lparr>d_modified_at := d_modified_at d\<rparr> = d then d_modified_at d else now)
         \<and> (\<forall>k. k \<noteq> i \<longrightarrow> get_detalle sd k = get_detalle s k)))
   \<and> (update_cliente s now i cu = Inl e \<longrightarrow> handle s now uuid4 (Actualizar_cliente i cu) = s)
   \<and> (update_producto s now i pu = Inl e \<longrightarrow> handle s now uuid4 (Actualizar_producto i pu) = s)
   \<and> (update_venta s now i vu = Inl e \<longrightarrow> handle s now uuid4 (Actualizar_venta i vu) = s)
   \<and> (update_detalle s now i du = Inl e \<longrightarrow> handle s now uuid4 (Actualizar_detalle i du) = s)"
proof (intro conjI impI)
  assume "update_cliente s now i cu = Inl e"
  then show "handle s now uuid4 (Actualizar_cliente i cu) = s" by (simp add: get_db_def)
next
  assume "update_producto s now i pu = Inl e"
  then show "handle s now uuid4 (Actualizar_producto i pu) = s" by (simp add: get_db_def)
next
  assume "update_venta s now i vu = Inl e"
  then show "handle s now uuid4 (Actualizar_venta i vu) = s" by (simp add: get_db_def)
next
  assume "update_detalle s now i du = Inl e"
  then show "handle s now uuid4 (Actualizar_detalle i du) = s" by (simp add: get_db_def)
next
  assume "get_cliente s i = Some c \<and> update_cliente s now i cu = Inr (sc, rc)"
  then show "\<exists>c'. rc = Some c' \<and> get_cliente sc i = Some c'
         \<and> c_id c' = c_id c \<and> c_uuid c' = c_uuid c \<and> c_created_at c' = c_created_at c
         \<and> applied (cu_nombre cu) (c_nombre c) (c_nombre c')
         \<and> applied (cu_email cu) (c_email c) (c_email c')
         \<and> applied (cu_rut cu) (c_rut c) (c_rut c')
         \<and> c_modified_at c' =
             (if c'\<lparr>c_modified_at := c_modified_at c\<rparr> = c then c_modified_at c else now)
         \<and> (\<forall>k. k \<noteq> i \<longrightarrow> get_cliente sc k = get_cliente s k)"
    using update_cliente_frame[of s i c now cu sc rc] by blast
next
  assume "get_producto s i = Some p \<and> update_producto s now i pu = Inr (sp, rp)"
  then show "\<exists>p'. rp = Some p' \<and> get_producto sp i = Some p'
         \<and> p_id p' = p_id p \<and> p_uuid p' = p_uuid p \<and> p_created_at p' = p_created_at p
         \<and> applied (pu_nombre pu) (p_nombre p) (p_nombre p')
         \<and> applied_nullable (pu_categoria pu) (p_categoria p) (p_categoria p')
         \<and> applied (pu_precio pu) (p_precio p) (p_precio p')
         \<and> p_modified_at p' =
             (if p'\<lparr>p_modified_at := p_modified_at p\<rparr> = p then p_modified_at p else now)
         \<and> (\<forall>k. k \<noteq> i \<longrightarrow> get_producto sp k = get_producto s k)"
    using update_producto_frame[of s i p now pu sp rp] by blast
next
  assume "get_venta s i = Some v \<and> update_venta s now i vu = Inr (sv, rv)"
  then show "\<exists>v'. rv = Some v' \<and> get_venta sv i = Some v'
         \<and> v_id v' = v_id v \<and> v_uuid v' = v_uuid v \<and> v_fecha v' = v_fecha v
         \<and> v_total v' = v_total v \<and> v_created_at v' = v_created_at v
         \<and> applied (vu_cliente_id vu) (v_cliente_id v) (v_cliente_id v')
         \<and> v_modified_at v' =
             (if v'\<lparr>v_modified_at := v_modified_at v\<rparr> = v then v_modified_at v else now)
         \<and> (\<forall>k. k \<noteq> i \<longrightarrow> get_venta sv k = get_venta s k)"
    using update_venta_frame[of s i v now vu sv rv] by blast
next
  assume "get_detalle s i = Some d \<and> update_detalle s now i du = Inr (sd, rd)"
  then show "\<exists>d'. rd = Some d' \<and> get_detalle sd i = Some d'
         \<and> d_id d' = d_id d \<and> d_uuid d' = d_uuid d \<and> d_producto_id d' = d_producto_id d
         \<and> d_venta_id d' = d_venta_id d \<and> d_created_at d' = d_created_at d
         \<and> applied (du_precio du) (d_precio d) (d_precio d')
         \<and> applied_nullable (du_descuento du) (d_descuento d) (d_descuento d')
         \<and> applied_nullable (du_cantidad du) (d_cantidad d) (d_cantidad d')
         \<and> d_modified_at d' =
             (if d'\<lparr>d_modified_at := d_modified_at d\<rparr> = d then d_modified_at d else now)
         \<and> (\<forall>k. k \<noteq> i \<longrightarrow> get_detalle sd k = get_detalle s k)"
    using update_detalle_frame[of s i d now du sd rd] by blast
qed

theorem partial_update_frame_witness:
  "get_cliente db_una_venta 1 = Some (ejemplo_cliente 1 ''Ana'')
   \<and> update_cliente db_una_venta 5 1
        \<lparr>cu_nombre = Given (Some ''Eva''), cu_email = Unset, cu_rut = Unset\<rparr>
       = Inr (db_una_venta\<lparr>clientes :=
                [(ejemplo_cliente 1 ''Ana'')\<lparr>c_nombre := ''Eva'', c_modified_at := 5\<rparr>]\<rparr>,
              Some ((ejemplo_cliente 1 ''Ana'')\<lparr>c_nombre := ''Eva'', c_modified_at := 5\<rparr>))
   \<and> get_producto db_una_venta 1 = Some (ejemplo_producto 1 ''Pan'')
   \<and> update_producto db_una_venta 5 1
        \<lparr>pu_nombre = Unset, pu_categoria = Given (Some ''Horno''), pu_precio = Given (Some 120)\<rparr>
       = Inr (db_una_venta\<lparr>productos :=
                [(ejemplo_producto 1 ''Pan'')\<lparr>p_categoria := Some ''Horno'', p_precio := 120,
                                               p_modified_at := 5\<rparr>]\<rparr>,
              Some ((ejemplo_producto 1 ''Pan'')\<lparr>p_categoria := Some ''Horno'', p_precio := 120,
                                                 p_modified_at := 5\<rparr>))
   \<and> get_venta db_clientes 1 = Some (ejemplo_venta 1 1 500)
   \<and> update_venta db_clientes 7 1 \<lparr>vu_cliente_id = Given (Some 2)\<rparr>
       = Inr (db_clientes\<lparr>ventas :=
                [(ejemplo_venta 1 1 500)\<lparr>v_cliente_id := 2, v_modified_at := 7\<rparr>,
                 ejemplo_venta 2 2 180, ejemplo_venta 3 2 0, ejemplo_venta 4 2 20]\<rparr>,
              Some ((ejemplo_venta 1 1 500)\<lparr>v_cliente_id := 2, v_modified_at := 7\<rparr>))
   \<and> get_detalle db_una_venta 1 = Some (ejemplo_detalle 1 1 1 100 (Some 10) (Some 2))
   \<and> update_detalle db_una_venta 5 1
        \<lparr>du_precio = Unset, du_descuento = Unset, du_cantidad = Given (Some 3)\<rparr>
       = Inr (db_una_venta\<lparr>
                detalles_ventas := [(ejemplo_detalle 1 1 1 100 (Some 10) (Some 3))\<lparr>d_modified_at := 5\<rparr>],
                ventas := [(ejemplo_venta 1 1 270)\<lparr>v_modified_at := 5\<rparr>]\<rparr>,
              Some ((ejemplo_detalle 1 1 1 100 (Some 10) (Some 3))\<lparr>d_modified_at := 5\<rparr>))
   \<and> update_cliente db_clientes 7 1
        \<lparr>cu_nombre = Unset, cu_email = Given (Some ''Ana@x''), cu_rut = Unset\<rparr>
       = Inl IntegrityError
   \<and> handle db_clientes 7 (\<lambda>i. []) (Actualizar_cliente 1
          \<lparr>cu_nombre = Unset, cu_email = Given (Some ''Ana@x''), cu_rut = Unset\<rparr>) = db_clientes
   \<and> update_producto db_una_venta 5 1
        \<lparr>pu_nombre = Given None, pu_categoria = Unset, pu_precio = Unset\<rparr> = Inl IntegrityError
   \<and> update_venta db_una_venta 5 1 \<lparr>vu_cliente_id = Given (Some 9)\<rparr> = Inl IntegrityError
   \<and> update_detalle db_una_venta 5 1
        \<lparr>du_precio = Given None, du_descuento = Unset, du_cantidad = Unset\<rparr> = Inl IntegrityError"
  using partial_update_frame[of db_una_venta 1 "ejemplo_cliente 1 ''Ana''" 5
      "\<lparr>cu_nombre = Given (Some ''Eva''), cu_email = Unset, cu_rut = Unset\<rparr>"
      "db_una_venta\<lparr>clientes :=
                [(ejemplo_cliente 1 ''Ana'')\<lparr>c_nombre := ''Eva'', c_modified_at := 5\<rparr>]\<rparr>"
      "Some ((ejemplo_cliente 1 ''Ana'')\<lparr>c_nombre := ''Eva'', c_modified_at := 5\<rparr>)"
      "ejemplo_producto 1 ''Pan''"
      "\<lparr>pu_nombre = Unset, pu_categoria = Given (Some ''Horno''), pu_precio = Given (Some 120)\<rparr>"]
    partial_update_frame[of db_clientes 1 _ 7 _ _ _ _ _ _ _ "ejemplo_venta 1 1 500"
      "\<lparr>vu_cliente_id = Given (Some 2)\<rparr>"]
  by (simp add: db_una_venta_def db_clientes_def ejemplo_defs get_cliente_def get_producto_def
      get_venta_def get_detalle_def update_cliente_def update_producto_def update_venta_def
      update_detalle_def required_def nullable_def recalcular_total_venta_def set_total_def
      sql_sum_def coalesce_def subtotal_def get_db_def Let_def)

theorem partial_update_modified_at_counterexample:
  "update_cliente db_una_venta 5 1
      \<lparr>cu_nombre = Given (Some ''Eva''), cu_email = Unset, cu_rut = Unset\<rparr>
     = Inr (db_una_venta\<lparr>clientes :=
              [(ejemplo_cliente 1 ''Ana'')\<lparr>c_nombre := ''Eva'', c_modified_at := 5\<rparr>]\<rparr>,
            Some ((ejemplo_cliente 1 ''Ana'')\<lparr>c_nombre := ''Eva'', c_modified_at := 5\<rparr>))
   \<and> c_modified_at ((ejemplo_cliente 1 ''Ana'')\<lparr>c_nombre := ''Eva'', c_modified_at := 5\<rparr>)
       \<noteq> c_modified_at (ejemplo_cliente 1 ''Ana'')"
  by (simp add: update_cliente_def get_cliente_def required_def db_una_venta_def ejemplo_defs Let_def)

subsection \<open>Reports\<close>




lemma those_non_null:
  "\<forall>x\<in>set xs. x \<noteq> None \<Longrightarrow> those xs = Some (non_null xs) \<and> length (non_null xs) = length xs"
  by (induction xs) auto













subsection \<open>Every request keeps the database consistent\<close>

lemma map_replace_key:
  "f z = i \<Longrightarrow> map f (map (\<lambda>x. if f x = i then z else x) xs) = map f xs"
  by (induction xs) auto

lemma consistentI:
  assumes "distinct (map c_id (clientes s))" "distinct (map p_id (productos s))"
    "distinct (map v_id (ventas s))" "distinct (map d_id (detalles_ventas s))"
    "\<And>v. v \<in> set (ventas s) \<Longrightarrow> v_cliente_id v \<in> c_id ` set (clientes s)"
    "\<And>d. d \<in> set (detalles_ventas s) \<Longrightarrow> d_venta_id d \<in> v_id ` set (ventas s)"
    "\<And>d. d \<in> set (detalles_ventas s) \<Longrightarrow> d_producto_id d \<in> p_id ` set (productos s)"
    "\<And>v. v \<in> set (ventas s) \<Longrightarrow>
        v_total v = coalesce (sql_sum (map subtotal (detalles_de s (v_id v)))) 0"
  shows "consistent s"
  using assms by (simp add: consistent_def ids_ok_def fk_ok_def totals_ok_def list_all_iff)

lemma consistentD:
  assumes "consistent s"
  shows "distinct (map c_id (clientes s))" "distinct (map p_id (productos s))"
    "distinct (map v_id (ventas s))" "distinct (map d_id (detalles_ventas s))"
    "\<And>v. v \<in> set (ventas s) \<Longrightarrow> v_cliente_id v \<in> c_id ` set (clientes s)"
    "\<And>d. d \<in> set (detalles_ventas s) \<Longrightarrow> d_venta_id d \<in> v_id ` set (ventas s)"
    "\<And>d. d \<in> set (detalles_ventas s) \<Longrightarrow> d_producto_id d \<in> p_id ` set (productos s)"
    "\<And>v. v \<in> set (ventas s) \<Longrightarrow>
        v_total v = coalesce (sql_sum (map subtotal (detalles_de s (v_id v)))) 0"
  using assms by (simp_all add: consistent_def ids_ok_def fk_ok_def totals_ok_def list_all_iff)

lemma consistent_empty: "consistent empty_db"
  by (simp add: consistent_def ids_ok_def fk_ok_def totals_ok_def empty_db_def)

lemma distinct_snoc_next_id:
  "distinct (map f xs) \<Longrightarrow> f z = next_id (map f xs) \<Longrightarrow> distinct (map f (xs @ [z]))"
  using next_id_fresh[of "map f xs"] by simp

lemma consistent_add_cliente:
  assumes c: "consistent s" and a: "add_cliente s now u n e r = Inr (s', x)"
  shows "consistent s'"
proof -
  from a have s': "s' = s\<lparr>clientes := clientes s @ [x]\<rparr>"
    and i: "c_id x = next_id (map c_id (clientes s))"
    by (auto simp: add_cliente_def Let_def split: if_splits)
  note D = consistentD[OF c]
  show ?thesis
  proof (rule consistentI)
    show "distinct (map c_id (clientes s'))"
      unfolding s' using distinct_snoc_next_id[OF D(1) i] by simp
    show "\<And>v. v \<in> set (ventas s') \<Longrightarrow> v_cliente_id v \<in> c_id ` set (clientes s')"
      unfolding s' using D(5) by auto
  qed (use D in \<open>simp_all add: s' detalles_de_def\<close>)
qed

lemma consistent_add_producto:
  assumes c: "consistent s" and a: "add_producto s now u n cat pr = Inr (s', x)"
  shows "consistent s'"
proof -
  from a have s': "s' = s\<lparr>productos := productos s @ [x]\<rparr>"
    and i: "p_id x = next_id (map p_id (productos s))"
    by (auto simp: add_producto_def Let_def split: if_splits)
  note D = consistentD[OF c]
  show ?thesis
  proof (rule consistentI)
    show "distinct (map p_id (productos s'))"
      unfolding s' using distinct_snoc_next_id[OF D(2) i] by simp
    show "\<And>d. d \<in> set (detalles_ventas s') \<Longrightarrow> d_producto_id d \<in> p_id ` set (productos s')"
      unfolding s' using D(7) by auto
  qed (use D in \<open>simp_all add: s' detalles_de_def\<close>)
qed

lemma consistent_same_keys:
  assumes "consistent s" and "map c_id (clientes s') = map c_id (clientes s)"
    and "map p_id (productos s') = map p_id (productos s)"
    and "ventas s' = ventas s" and "detalles_ventas s' = detalles_ventas s"
  shows "consistent s'"
proof -
  note D = consistentD[OF assms(1)]
  have sc: "c_id ` set (clientes s') = c_id ` set (clientes s)"
    using arg_cong[OF assms(2), of set] by simp
  have sp: "p_id ` set (productos s') = p_id ` set (productos s)"
    using arg_cong[OF assms(3), of set] by simp
  show ?thesis
    by (rule consistentI) (use D assms(2-5) sc sp in \<open>simp_all add: detalles_de_def\<close>)
qed

lemma update_cliente_keys:
  assumes "update_cliente s now i data = Inr (s', r)"
  shows "map c_id (clientes s') = map c_id (clientes s) \<and> productos s' = productos s
         \<and> ventas s' = ventas s \<and> detalles_ventas s' = detalles_ventas s"
proof (cases "get_cliente s i")
  case None
  then show ?thesis using assms by (simp add: update_cliente_def)
next
  case (Some c)
  have ci: "c_id c = i" using Some find_SomeD[of c_id i "clientes s" c] by (simp add: get_cliente_def)
  show ?thesis using assms Some ci
    by (auto simp: update_cliente_def Let_def split: sum.splits if_splits)
qed

lemma update_producto_keys:
  assumes "update_producto s now i data = Inr (s', r)"
  shows "clientes s' = clientes s \<and> map p_id (productos s') = map p_id (productos s)
         \<and> ventas s' = ventas s \<and> detalles_ventas s' = detalles_ventas s"
proof (cases "get_producto s i")
  case None
  then show ?thesis using assms by (simp add: update_producto_def)
next
  case (Some p)
  have pi: "p_id p = i" using Some find_SomeD[of p_id i "productos s" p] by (simp add: get_producto_def)
  show ?thesis using assms Some pi
    by (auto simp: update_producto_def Let_def split: sum.splits if_splits)
qed

lemma consistent_delete_cliente:
  assumes c: "consistent s" and d: "delete_cliente s i = Inr (s', b)"
  shows "consistent s'"
proof (cases "get_cliente s i")
  case None
  then show ?thesis using c d by (simp add: delete_cliente_def)
next
  case (Some x)
  define owned where "owned = v_id ` {v \<in> set (ventas s). v_cliente_id v = i}"
  have s': "s' = s\<lparr>clientes := filter (\<lambda>c. c_id c \<noteq> i) (clientes s),
                    ventas := filter (\<lambda>v. v_cliente_id v \<noteq> i) (ventas s),
                    detalles_ventas := filter (\<lambda>d. d_venta_id d \<notin> owned) (detalles_ventas s)\<rparr>"
    using d Some by (simp add: delete_cliente_def Let_def owned_def)
  note D = consistentD[OF c]
  have inj: "inj_on v_id (set (ventas s))" using D(3) by (simp add: distinct_map)
  have own: "v_id v \<notin> owned" if "v \<in> set (ventas s)" "v_cliente_id v \<noteq> i" for v
  proof
    assume "v_id v \<in> owned"
    then obtain w where w: "w \<in> set (ventas s)" "v_cliente_id w = i" "v_id w = v_id v"
      by (auto simp: owned_def)
    then have "w = v" using inj_onD[OF inj, of w v] that(1) by simp
    then show False using w(2) that(2) by simp
  qed
  show ?thesis
  proof (rule consistentI)
    show "distinct (map c_id (clientes s'))" "distinct (map p_id (productos s'))"
      "distinct (map v_id (ventas s'))" "distinct (map d_id (detalles_ventas s'))"
      using D(1-4) by (simp_all add: s' distinct_map_filter)
  next
    fix v assume "v \<in> set (ventas s')"
    then have v: "v \<in> set (ventas s)" "v_cliente_id v \<noteq> i" by (simp_all add: s')
    from D(5)[OF v(1)] v(2) show "v_cliente_id v \<in> c_id ` set (clientes s')"
      by (auto simp: s')
    have eq: "(d_venta_id x \<notin> owned \<and> d_venta_id x = v_id v) = (d_venta_id x = v_id v)" for x
      using own[OF v] by metis
    have "detalles_de s' (v_id v) = detalles_de s (v_id v)"
      by (simp add: s' detalles_de_def eq)
    then show "v_total v = coalesce (sql_sum (map subtotal (detalles_de s' (v_id v)))) 0"
      using D(8)[OF v(1)] by simp
  next
    fix x assume "x \<in> set (detalles_ventas s')"
    then have x: "x \<in> set (detalles_ventas s)" "d_venta_id x \<notin> owned" by (simp_all add: s')
    from D(7)[OF x(1)] show "d_producto_id x \<in> p_id ` set (productos s')" by (simp add: s')
    from D(6)[OF x(1)] obtain v where v: "v \<in> set (ventas s)" "v_id v = d_venta_id x" by auto
    have "v_cliente_id v \<noteq> i"
    proof
      assume "v_cliente_id v = i"
      then have "v_id v \<in> owned" using v(1) by (simp add: owned_def)
      then show False using x(2) v(2) by simp
    qed
    then show "d_venta_id x \<in> v_id ` set (ventas s')" using v by (force simp: s')
  qed
qed

lemma consistent_delete_producto:
  assumes c: "consistent s" and d: "delete_producto s i = Inr (s', b)"
  shows "consistent s'"
proof (cases "get_producto s i")
  case None
  then show ?thesis using c d by (simp add: delete_producto_def)
next
  case (Some x)
  have nr: "i \<notin> d_producto_id ` set (detalles_ventas s)"
    and s': "s' = s\<lparr>productos := filter (\<lambda>p. p_id p \<noteq> i) (productos s)\<rparr>"
    using d Some by (auto simp: delete_producto_def split: if_splits)
  note D = consistentD[OF c]
  show ?thesis
  proof (rule consistentI)
    show "distinct (map p_id (productos s'))" using D(2) by (simp add: s' distinct_map_filter)
  next
    fix x assume x: "x \<in> set (detalles_ventas s')"
    then have "d_producto_id x \<noteq> i" using nr by (auto simp: s')
    then show "d_producto_id x \<in> p_id ` set (productos s')"
      using D(7)[of x] x by (auto simp: s')
  qed (use D in \<open>simp_all add: s' detalles_de_def\<close>)
qed

lemma consistent_delete_venta:
  assumes c: "consistent s" and d: "delete_venta s i = Inr (s', b)"
  shows "consistent s'"
proof (cases "get_venta s i")
  case None
  then show ?thesis using c d by (simp add: delete_venta_def)
next
  case (Some x)
  have s': "s' = s\<lparr>ventas := filter (\<lambda>v. v_id v \<noteq> i) (ventas s),
                    detalles_ventas := filter (\<lambda>d. d_venta_id d \<noteq> i) (detalles_ventas s)\<rparr>"
    using d Some by (simp add: delete_venta_def)
  note D = consistentD[OF c]
  show ?thesis
  proof (rule consistentI)
    show "distinct (map v_id (ventas s'))" "distinct (map d_id (detalles_ventas s'))"
      using D(3,4) by (simp_all add: s' distinct_map_filter)
  next
    fix v assume "v \<in> set (ventas s')"
    then have v: "v \<in> set (ventas s)" "v_id v \<noteq> i" by (simp_all add: s')
    from D(5)[OF v(1)] show "v_cliente_id v \<in> c_id ` set (clientes s')" by (simp add: s')
    have "detalles_de s' (v_id v) = detalles_de s (v_id v)"
      using v(2) by (auto simp: s' detalles_de_def intro!: filter_cong)
    then show "v_total v = coalesce (sql_sum (map subtotal (detalles_de s' (v_id v)))) 0"
      using D(8)[OF v(1)] by simp
  next
    fix x assume "x \<in> set (detalles_ventas s')"
    then have x: "x \<in> set (detalles_ventas s)" "d_venta_id x \<noteq> i" by (simp_all add: s')
    from D(7)[OF x(1)] show "d_producto_id x \<in> p_id ` set (productos s')" by (simp add: s')
    from D(6)[OF x(1)] x(2) show "d_venta_id x \<in> v_id ` set (ventas s')" by (auto simp: s')
  qed (use D in \<open>simp_all add: s'\<close>)
qed

lemma set_total_ventas:
  "w \<in> set (ventas (fst (set_total s now v x))) \<Longrightarrow>
     (w \<in> set (ventas s) \<and> v_id w \<noteq> v_id v)
     \<or> (v_id w = v_id v \<and> v_total w = x \<and> v_cliente_id w = v_cliente_id v)"
  by (auto simp: set_total_def Let_def split: if_splits)

lemma set_total_keys:
  "map v_id (ventas (fst (set_total s now v x))) = map v_id (ventas s)"
  by (simp add: set_total_def Let_def)

lemma consistent_set_total:
  assumes i: "ids_ok s" and f: "fk_ok s" and t: "totals_ok_but s (v_id v)"
    and c: "v_cliente_id v \<in> c_id ` set (clientes s)"
    and x: "x = coalesce (sql_sum (map subtotal (detalles_de s (v_id v)))) 0"
  shows "consistent (fst (set_total s now v x))"
proof -
  let ?s = "fst (set_total s now v x)"
  have k: "map v_id (ventas ?s) = map v_id (ventas s)" by (rule set_total_keys)
  have ks: "v_id ` set (ventas ?s) = v_id ` set (ventas s)"
    using arg_cong[OF k, of set] by simp
  have dd: "detalles_de (fst (set_total s now v y)) j = detalles_de s j" for j y
    by (simp add: detalles_de_def set_total_simps)
  show ?thesis
  proof (rule consistentI)
    show "distinct (map c_id (clientes ?s))" "distinct (map p_id (productos ?s))"
      "distinct (map d_id (detalles_ventas ?s))"
      using i by (simp_all add: ids_ok_def set_total_simps)
    show "distinct (map v_id (ventas ?s))" using i by (simp add: k ids_ok_def)
  next
    fix d assume "d \<in> set (detalles_ventas ?s)"
    then have d: "d \<in> set (detalles_ventas s)" by (simp add: set_total_simps)
    show "d_venta_id d \<in> v_id ` set (ventas ?s)"
      using f d by (simp add: ks fk_ok_def list_all_iff)
    show "d_producto_id d \<in> p_id ` set (productos ?s)"
      using f d by (simp add: set_total_simps fk_ok_def list_all_iff)
  next
    fix w assume w: "w \<in> set (ventas ?s)"
    from set_total_ventas[OF w]
    show "v_cliente_id w \<in> c_id ` set (clientes ?s)"
      using f c by (auto simp: set_total_simps fk_ok_def list_all_iff)
    from set_total_ventas[OF w]
    show "v_total w = coalesce (sql_sum (map subtotal (detalles_de ?s (v_id w)))) 0"
      using t x by (auto simp: dd totals_ok_but_def list_all_iff)
  qed
qed

lemma find_None_key: "find (\<lambda>x. f x = i) xs = None \<Longrightarrow> x \<in> set xs \<Longrightarrow> f x \<noteq> i"
  by (induction xs) (auto split: if_splits)

lemma consistent_recalcular:
  assumes i: "ids_ok s" and f: "fk_ok s" and t: "totals_ok_but s j"
  shows "consistent (recalcular_total_venta s now j)"
proof (cases "get_venta s j")
  case None
  have "totals_ok s"
    using t find_None_key[of v_id j "ventas s"] None
    by (auto simp: totals_ok_def totals_ok_but_def list_all_iff get_venta_def)
  then show ?thesis using i f None by (simp add: recalcular_total_venta_def consistent_def)
next
  case (Some v)
  have v: "v_id v = j" "v \<in> set (ventas s)"
    using Some find_SomeD[of v_id j "ventas s" v] by (simp_all add: get_venta_def)
  have c: "v_cliente_id v \<in> c_id ` set (clientes s)"
    using f v(2) by (simp add: fk_ok_def list_all_iff)
  have "recalcular_total_venta s now j
      = fst (set_total s now v (coalesce (sql_sum (map subtotal (detalles_de s (v_id v)))) 0))"
    using Some v(1) by (simp add: recalcular_total_venta_def Let_def detalles_de_def)
  then show ?thesis
    using consistent_set_total[OF i f _ c refl, of now] t v(1) by simp
qed

lemma consistent_update_venta:
  assumes c: "consistent s" and u: "update_venta s now i data = Inr (s', r)"
  shows "consistent s'"
proof -
  note D = consistentD[OF c]
  from update_venta_Inr[OF u] show ?thesis
  proof
    assume "s' = s \<and> r = get_venta s i"
    then show ?thesis using c by simp
  next
    assume "\<exists>v c. get_venta s i = Some v \<and> r = Some (v\<lparr>v_cliente_id := c, v_modified_at := now\<rparr>)
            \<and> vu_cliente_id data = Given (Some c) \<and> c \<in> c_id ` set (clientes s)
            \<and> s' = s\<lparr>ventas := map (\<lambda>x. if v_id x = i
                 then v\<lparr>v_cliente_id := c, v_modified_at := now\<rparr> else x) (ventas s)\<rparr>"
    then obtain v k where g: "get_venta s i = Some v" and k: "k \<in> c_id ` set (clientes s)"
      and s': "s' = s\<lparr>ventas := map (\<lambda>x. if v_id x = i
                 then v\<lparr>v_cliente_id := k, v_modified_at := now\<rparr> else x) (ventas s)\<rparr>"
      by blast
    have v: "v_id v = i" "v \<in> set (ventas s)"
      using g find_SomeD[of v_id i "ventas s" v] by (simp_all add: get_venta_def)
    have keys: "map v_id (ventas s') = map v_id (ventas s)"
      using v(1) by (simp add: s' map_replace_key)
    have ks: "v_id ` set (ventas s') = v_id ` set (ventas s)"
      using arg_cong[OF keys, of set] by simp
    have dd: "detalles_de s' j = detalles_de s j" for j by (simp add: detalles_de_def s')
    have w: "(w \<in> set (ventas s) \<and> v_id w \<noteq> i)
        \<or> (v_id w = v_id v \<and> v_total w = v_total v \<and> v_cliente_id w = k)"
      if "w \<in> set (ventas s')" for w
      using that v(1) by (auto simp: s' split: if_splits)
    show ?thesis
    proof (rule consistentI)
      show "distinct (map v_id (ventas s'))" using D(3) by (simp add: keys)
    next
      fix d assume d: "d \<in> set (detalles_ventas s')"
      then show "d_venta_id d \<in> v_id ` set (ventas s')"
        using D(6)[of d] by (simp add: ks) (simp add: s')
      show "d_producto_id d \<in> p_id ` set (productos s')" using d D(7)[of d] by (simp add: s')
    next
      fix x assume x: "x \<in> set (ventas s')"
      from w[OF x] show "v_cliente_id x \<in> c_id ` set (clientes s')"
        using k D(5) by (auto simp: s')
      from w[OF x] show "v_total x = coalesce (sql_sum (map subtotal (detalles_de s' (v_id x)))) 0"
        using D(8)[of x] D(8)[OF v(2)] by (auto simp: dd)
    qed (use D in \<open>simp_all add: s'\<close>)
  qed
qed

lemma consistent_but: "consistent s \<Longrightarrow> ids_ok s \<and> fk_ok s \<and> totals_ok_but s j"
  by (auto simp: consistent_def totals_ok_def totals_ok_but_def list_all_iff)

lemma totals_ok_but_cong:
  assumes t: "totals_ok_but s j" and v: "ventas s' = ventas s"
    and d: "\<And>k. k \<noteq> j \<Longrightarrow> detalles_de s' k = detalles_de s k"
  shows "totals_ok_but s' j"
  unfolding totals_ok_but_def list_all_iff
proof
  fix w assume w: "w \<in> set (ventas s')"
  show "v_id w = j \<or> v_total w = coalesce (sql_sum (map subtotal (detalles_de s' (v_id w)))) 0"
  proof (cases "v_id w = j")
    case True
    then show ?thesis by simp
  next
    case False
    have "v_total w = coalesce (sql_sum (map subtotal (detalles_de s (v_id w)))) 0"
      using t w v False by (auto simp: totals_ok_but_def list_all_iff)
    then show ?thesis using d[OF False] by simp
  qed
qed

lemma add_detalle_but:
  assumes i: "ids_ok s" and f: "fk_ok s" and t: "totals_ok_but s vid"
    and a: "add_detalle s now u pid vid pr de ca = Inr (s', d)"
  shows "ids_ok s' \<and> fk_ok s' \<and> totals_ok_but s' vid"
proof -
  note A = add_detalle_Inr[OF a]
  have s': "s' = s\<lparr>detalles_ventas := detalles_ventas s @ [d]\<rparr>"
    using a by (auto simp: add_detalle_def Let_def split: if_splits)
  have "ids_ok s'"
    using i distinct_snoc_next_id[of d_id "detalles_ventas s" d] A(10)
    by (simp add: ids_ok_def s')
  moreover have "fk_ok s'"
    using f A(5,6,11,12) by (simp add: fk_ok_def s')
  moreover have "detalles_de s' k = detalles_de s k" if "k \<noteq> vid" for k
    using that A(5) by (simp add: detalles_de_def s')
  then have "totals_ok_but s' vid"
    using totals_ok_but_cong[OF t, of s'] by (simp add: s')
  ultimately show ?thesis by simp
qed

lemma consistent_create_detalle:
  assumes c: "consistent s" and a: "create_detalle s now uuid4 data = Inr (s', d)"
  shows "consistent s'"
proof -
  from a obtain s1 where
    a1: "add_detalle s now (uuid4 0) (ds_producto_id data) (ds_venta_id data) (ds_precio data)
             (ds_descuento data) (ds_cantidad data) = Inr (s1, d)"
    and s': "s' = recalcular_total_venta s1 now (ds_venta_id data)"
    by (auto simp: create_detalle_def split: sum.splits)
  from consistent_but[OF c, of "ds_venta_id data"] add_detalle_but[OF _ _ _ a1]
  have "ids_ok s1 \<and> fk_ok s1 \<and> totals_ok_but s1 (ds_venta_id data)" by blast
  then show ?thesis unfolding s' using consistent_recalcular by blast
qed

lemma filter_map_replace:
  "(\<And>x. x \<in> set xs \<Longrightarrow> g x \<noteq> x \<Longrightarrow> \<not> P x \<and> \<not> P (g x)) \<Longrightarrow> filter P (map g xs) = filter P xs"
proof (induction xs)
  case Nil
  then show ?case by simp
next
  case (Cons a xs)
  have ih: "filter P (map g xs) = filter P xs"
    using Cons.prems by (intro Cons.IH) simp_all
  show ?case
  proof (cases "g a = a")
    case True
    then show ?thesis using ih by simp
  next
    case False
    then have "\<not> P a \<and> \<not> P (g a)" using Cons.prems[of a] by simp
    then show ?thesis using ih by simp
  qed
qed

lemma distinct_key_eq:
  "distinct (map f xs) \<Longrightarrow> x \<in> set xs \<Longrightarrow> y \<in> set xs \<Longrightarrow> f x = f y \<Longrightarrow> x = y"
  by (simp add: distinct_map inj_on_def)

lemma consistent_update_detalle:
  assumes c: "consistent s" and u: "update_detalle s now i data = Inr (s', r)"
  shows "consistent s'"
proof (cases "get_detalle s i")
  case None
  then show ?thesis using c u by (simp add: update_detalle_def)
next
  case (Some det)
  have det: "d_id det = i" "det \<in> set (detalles_ventas s)"
    using Some find_SomeD[of d_id i "detalles_ventas s" det] by (simp_all add: get_detalle_def)
  from u Some obtain pr where pr: "required (du_precio data) (d_precio det) = Inr pr"
    by (auto simp: update_detalle_def split: sum.splits)
  define d' where "d' = det\<lparr>d_precio := pr,
                     d_descuento := nullable (du_descuento data) (d_descuento det),
                     d_cantidad := nullable (du_cantidad data) (d_cantidad det)\<rparr>"
  define d'' where "d'' = (if d' = det then det else d'\<lparr>d_modified_at := now\<rparr>)"
  have k: "d_id d'' = i" "d_venta_id d'' = d_venta_id det" "d_producto_id d'' = d_producto_id det"
    using det(1) by (simp_all add: d''_def d'_def)
  have s0: "s' = recalcular_total_venta
               (s\<lparr>detalles_ventas := map (\<lambda>x. if d_id x = i then d'' else x) (detalles_ventas s)\<rparr>)
               now (d_venta_id d'')"
    unfolding d''_def d'_def using u Some pr by (auto simp: update_detalle_def Let_def)
  have s': "s' = recalcular_total_venta
               (s\<lparr>detalles_ventas := map (\<lambda>x. if d_id x = i then d'' else x) (detalles_ventas s)\<rparr>)
               now (d_venta_id det)"
    using s0 by (simp only: k(2))
  let ?s1 = "s\<lparr>detalles_ventas := map (\<lambda>x. if d_id x = i then d'' else x) (detalles_ventas s)\<rparr>"
  note D = consistentD[OF c]
  have i1: "ids_ok ?s1"
    using D(1-4) map_replace_key[of d_id d'' i "detalles_ventas s"] k(1)
    by (simp add: ids_ok_def del: map_map)
  have f1: "fk_ok ?s1"
    using D(5-7) det(2) k(2,3) by (auto simp: fk_ok_def list_all_iff)
  have dd: "detalles_de ?s1 j = detalles_de s j" if "j \<noteq> d_venta_id det" for j
  proof -
    have "\<not> d_venta_id x = j \<and> \<not> d_venta_id (if d_id x = i then d'' else x) = j"
      if x: "x \<in> set (detalles_ventas s)" and n: "(if d_id x = i then d'' else x) \<noteq> x" for x
    proof -
      from n have "d_id x = i" by (auto split: if_splits)
      then have "x = det" using distinct_key_eq[OF D(4) x det(2)] det(1) by simp
      then show ?thesis using \<open>d_id x = i\<close> k(2) \<open>j \<noteq> d_venta_id det\<close> by simp
    qed
    then show ?thesis
      unfolding detalles_de_def by (simp add: filter_map_replace)
  qed
  have t1: "totals_ok_but ?s1 (d_venta_id det)"
    using totals_ok_but_cong[of s "d_venta_id det" ?s1] consistent_but[OF c] dd by simp
  show ?thesis unfolding s' by (rule consistent_recalcular[OF i1 f1 t1])
qed

lemma consistent_delete_detalle:
  assumes c: "consistent s" and u: "delete_detalle s now i = Inr (s', r)"
  shows "consistent s'"
proof (cases "get_detalle s i")
  case None
  then show ?thesis using c u by (simp add: delete_detalle_def)
next
  case (Some det)
  have det: "d_id det = i" "det \<in> set (detalles_ventas s)"
    using Some find_SomeD[of d_id i "detalles_ventas s" det] by (simp_all add: get_detalle_def)
  let ?s1 = "s\<lparr>detalles_ventas := filter (\<lambda>d. d_id d \<noteq> i) (detalles_ventas s)\<rparr>"
  have s': "s' = recalcular_total_venta ?s1 now (d_venta_id det)"
    using u Some by (simp add: delete_detalle_def Let_def)
  note D = consistentD[OF c]
  have i1: "ids_ok ?s1"
    using D(1-4) by (simp add: ids_ok_def distinct_map_filter)
  have f1: "fk_ok ?s1"
    using D(5-7) by (auto simp: fk_ok_def list_all_iff)
  have dd: "detalles_de ?s1 j = detalles_de s j" if "j \<noteq> d_venta_id det" for j
  proof -
    have "(d_id x \<noteq> i \<and> d_venta_id x = j) = (d_venta_id x = j)"
      if x: "x \<in> set (detalles_ventas s)" for x
    proof -
      have "d_venta_id x \<noteq> j" if "d_id x = i"
      proof -
        have "x = det" using distinct_key_eq[OF D(4) x det(2)] det(1) that by simp
        then show ?thesis using \<open>j \<noteq> d_venta_id det\<close> by simp
      qed
      then show ?thesis by blast
    qed
    then show ?thesis
      unfolding detalles_de_def by (simp cong: filter_cong)
  qed
  have t1: "totals_ok_but ?s1 (d_venta_id det)"
    using totals_ok_but_cong[of s "d_venta_id det" ?s1] consistent_but[OF c] dd by simp
  show ?thesis unfolding s' by (rule consistent_recalcular[OF i1 f1 t1])
qed

lemma create_venta_loop_but:
  "ids_ok s \<Longrightarrow> fk_ok s \<Longrightarrow> totals_ok_but s vid \<Longrightarrow>
   create_venta_loop s now uuid4 vid i tot dets = Inr (s', t) \<Longrightarrow>
   ids_ok s' \<and> fk_ok s' \<and> totals_ok_but s' vid"
proof (induction dets arbitrary: s i tot)
  case Nil
  then show ?case by simp
next
  case (Cons det dets)
  from Cons.prems(4) obtain s1 d where
    a: "add_detalle s now (uuid4 i) (dc_producto_id det) vid (dc_precio det) (dc_descuento det) (dc_cantidad det) = Inr (s1, d)"
    and r: "create_venta_loop s1 now uuid4 vid (Suc i) (tot + (dc_precio det - dc_descuento det) * dc_cantidad det) dets = Inr (s', t)"
    by (auto simp: Let_def split: sum.splits)
  from add_detalle_but[OF Cons.prems(1-3) a]
  have "ids_ok s1" "fk_ok s1" "totals_ok_but s1 vid" by simp_all
  from Cons.IH[OF this r] show ?case .
qed

lemma subtotal_new_rows:
  "map d_precio new = map dc_precio dets \<Longrightarrow>
   map d_descuento new = map (\<lambda>det. Some (dc_descuento det)) dets \<Longrightarrow>
   map d_cantidad new = map (\<lambda>det. Some (dc_cantidad det)) dets \<Longrightarrow>
   map subtotal new = map (\<lambda>det. Some ((dc_precio det - dc_descuento det) * dc_cantidad det)) dets"
proof (induction new arbitrary: dets)
  case Nil
  then show ?case by simp
next
  case (Cons a new)
  then obtain det rest where d: "dets = det # rest" by (cases dets) auto
  show ?case using Cons.prems Cons.IH[of rest] by (simp add: d subtotal_def)
qed

lemma sql_sum_all_Some:
  "coalesce (sql_sum (map (\<lambda>x. Some (f x)) xs)) 0 = sum_list (map f xs)"
proof -
  have "non_null (map (\<lambda>x. Some (f x)) xs) = map f xs" by (induction xs) simp_all
  then show ?thesis by (cases xs) (simp_all add: sql_sum_def coalesce_def)
qed

lemma consistent_create_venta:
  assumes c: "consistent s" and a: "create_venta s now uuid4 data = Inr (s', r)"
  shows "consistent s'"
proof -
  from a obtain s1 v1 s2 tot where
    av: "add_venta s now (uuid4 0) (vc_cliente_id data) = Inr (s1, v1)"
    and l: "create_venta_loop s1 now uuid4 (v_id v1) 1 0 (vc_detalles data) = Inr (s2, tot)"
    and r: "(s', r) = set_total s2 now v1 tot"
    by (auto simp: create_venta_def split: sum.splits)
  note A = add_venta_Inr[OF av]
  note D = consistentD[OF c]
  have s1: "s1 = s\<lparr>ventas := ventas s @ [v1]\<rparr>"
    using av by (auto simp: add_venta_def Let_def split: if_splits)
  have fresh: "d_venta_id d \<noteq> v_id v1" if "d \<in> set (detalles_ventas s)" for d
    using D(6)[OF that] next_id_fresh[of "map v_id (ventas s)"] A(5) by auto
  have e1: "detalles_de s1 (v_id v1) = []"
    using fresh by (auto simp: detalles_de_def s1 filter_empty_conv)
  have i1: "ids_ok s1"
    using D(1-4) distinct_snoc_next_id[of v_id "ventas s" v1] A(5) by (simp add: ids_ok_def s1)
  have f1: "fk_ok s1"
    using D(5-7) A(7,8) by (auto simp: fk_ok_def list_all_iff s1)
  have t1: "totals_ok_but s1 (v_id v1)"
    using D(8) by (auto simp: totals_ok_but_def list_all_iff s1 detalles_de_def)
  from create_venta_loop_but[OF i1 f1 t1 l]
  have i2: "ids_ok s2" and f2: "fk_ok s2" and t2: "totals_ok_but s2 (v_id v1)" by simp_all
  from create_venta_loop_Inr[OF l] obtain new where
    L: "clientes s2 = clientes s1"
       "tot = 0 + (\<Sum>det\<leftarrow>vc_detalles data. (dc_precio det - dc_descuento det) * dc_cantidad det)"
       "detalles_ventas s2 = detalles_ventas s1 @ new"
       "map d_venta_id new = map (\<lambda>_. v_id v1) (vc_detalles data)"
       "map d_precio new = map dc_precio (vc_detalles data)"
       "map d_descuento new = map (\<lambda>det. Some (dc_descuento det)) (vc_detalles data)"
       "map d_cantidad new = map (\<lambda>det. Some (dc_cantidad det)) (vc_detalles data)"
    by blast
  have "\<forall>d\<in>set new. d_venta_id d = v_id v1"
  proof
    fix d assume "d \<in> set new"
    then have "d_venta_id d \<in> set (map d_venta_id new)" by simp
    then show "d_venta_id d = v_id v1" unfolding L(4) by auto
  qed
  then have "filter (\<lambda>d. d_venta_id d = v_id v1) new = new" by simp
  then have d2: "detalles_de s2 (v_id v1) = new"
    using e1 by (simp add: detalles_de_def L(3))
  have x: "tot = coalesce (sql_sum (map subtotal (detalles_de s2 (v_id v1)))) 0"
    unfolding d2 subtotal_new_rows[OF L(5-7)] sql_sum_all_Some using L(2) by simp
  have cl: "v_cliente_id v1 \<in> c_id ` set (clientes s2)"
    using A(7,8) by (simp add: L(1) s1)
  have "s' = fst (set_total s2 now v1 tot)" using r by (metis fst_conv)
  then show ?thesis using consistent_set_total[OF i2 f2 t2 cl x] by simp
qed

lemma handle_consistent:
  assumes "consistent s"
  shows "consistent (handle s now uuid4 req)"
proof (cases req)
  case (Crear_cliente data)
  then show ?thesis using assms consistent_add_cliente
    by (auto simp: get_db_def create_cliente_def split: sum.splits)
next
  case (Actualizar_cliente i data)
  show ?thesis
  proof (cases "update_cliente s now i data")
    case (Inl e)
    then show ?thesis using assms Actualizar_cliente by (simp add: get_db_def)
  next
    case (Inr p)
    obtain s' r where p: "p = (s', r)" by (cases p)
    from update_cliente_keys[OF Inr[unfolded p]] consistent_same_keys[OF assms, of s']
    show ?thesis using Actualizar_cliente Inr p by (simp add: get_db_def)
  qed
next
  case (Eliminar_cliente i)
  then show ?thesis using assms consistent_delete_cliente
    by (auto simp: get_db_def split: sum.splits)
next
  case (Crear_producto data)
  then show ?thesis using assms consistent_add_producto
    by (auto simp: get_db_def create_producto_def split: sum.splits)
next
  case (Actualizar_producto i data)
  show ?thesis
  proof (cases "update_producto s now i data")
    case (Inl e)
    then show ?thesis using assms Actualizar_producto by (simp add: get_db_def)
  next
    case (Inr p)
    obtain s' r where p: "p = (s', r)" by (cases p)
    from update_producto_keys[OF Inr[unfolded p]] consistent_same_keys[OF assms, of s']
    show ?thesis using Actualizar_producto Inr p by (simp add: get_db_def)
  qed
next
  case (Eliminar_producto i)
  then show ?thesis using assms consistent_delete_producto
    by (auto simp: get_db_def split: sum.splits)
next
  case (Crear_venta data)
  then show ?thesis using assms consistent_create_venta
    by (auto simp: get_db_def split: sum.splits)
next
  case (Actualizar_venta i data)
  then show ?thesis using assms consistent_update_venta
    by (auto simp: get_db_def split: sum.splits)
next
  case (Eliminar_venta i)
  then show ?thesis using assms consistent_delete_venta
    by (auto simp: get_db_def split: sum.splits)
next
  case (Crear_detalle data)
  then show ?thesis using assms consistent_create_detalle
    by (auto simp: get_db_def split: sum.splits)
next
  case (Actualizar_detalle i data)
  then show ?thesis using assms consistent_update_detalle
    by (auto simp: get_db_def split: sum.splits)
next
  case (Eliminar_detalle i)
  then show ?thesis using assms consistent_delete_detalle
    by (auto simp: get_db_def split: sum.splits)
qed

lemma run_consistent: "consistent s \<Longrightarrow> consistent (run s reqs)"
proof (induction reqs arbitrary: s)
  case Nil
  then show ?case by simp
next
  case (Cons q reqs)
  obtain now uuid4 req where q: "q = (now, uuid4, req)" by (cases q)
  show ?case using Cons.IH[OF handle_consistent[OF Cons.prems, of now uuid4 req]] by (simp add: q)
qed

subsection \<open>The stored total of a sale\<close>

text \<open>
  As long as no request gives an explicit null for the discount or the quantity of a line
  item, every sale of every database that requests can build stores the sum of
  \<^verbatim>\<open>(precio - descuento) * cantidad\<close> over its line items, and a sale without line items
  stores 0 (\<open>total_invariant\<close>).
\<close>

lemma no_nullsI:
  "(\<And>d. d \<in> set (detalles_ventas s) \<Longrightarrow> d_descuento d \<noteq> None \<and> d_cantidad d \<noteq> None) \<Longrightarrow> no_nulls s"
  by (simp add: no_nulls_def list_all_iff)

lemma no_nullsD:
  "no_nulls s \<Longrightarrow> d \<in> set (detalles_ventas s) \<Longrightarrow> d_descuento d \<noteq> None \<and> d_cantidad d \<noteq> None"
  by (simp add: no_nulls_def list_all_iff)

lemma no_nulls_subset:
  "no_nulls s \<Longrightarrow> set (detalles_ventas s') \<subseteq> set (detalles_ventas s) \<Longrightarrow> no_nulls s'"
  by (auto simp: no_nulls_def list_all_iff)

lemma no_nulls_create_venta:
  assumes n: "no_nulls s" and a: "create_venta s now uuid4 data = Inr (s', r)"
  shows "no_nulls s'"
proof -
  from a obtain s1 v1 s2 tot where
    av: "add_venta s now (uuid4 0) (vc_cliente_id data) = Inr (s1, v1)"
    and l: "create_venta_loop s1 now uuid4 (v_id v1) 1 0 (vc_detalles data) = Inr (s2, tot)"
    and r: "(s', r) = set_total s2 now v1 tot"
    by (auto simp: create_venta_def split: sum.splits)
  note A = add_venta_Inr[OF av]
  from create_venta_loop_Inr[OF l] obtain new where
    L: "detalles_ventas s2 = detalles_ventas s1 @ new"
       "map d_descuento new = map (\<lambda>det. Some (dc_descuento det)) (vc_detalles data)"
       "map d_cantidad new = map (\<lambda>det. Some (dc_cantidad det)) (vc_detalles data)"
    by blast
  have s': "s' = fst (set_total s2 now v1 tot)" using r by (metis fst_conv)
  have nn: "d_descuento d \<noteq> None \<and> d_cantidad d \<noteq> None" if "d \<in> set new" for d
  proof -
    from that have "d_descuento d \<in> set (map d_descuento new)"
      "d_cantidad d \<in> set (map d_cantidad new)" by simp_all
    then show ?thesis unfolding L(2,3) by auto
  qed
  show ?thesis
  proof (rule no_nullsI)
    fix d assume "d \<in> set (detalles_ventas s')"
    then have "d \<in> set (detalles_ventas s) \<or> d \<in> set new"
      by (auto simp: s' set_total_simps L(1) A(3))
    then show "d_descuento d \<noteq> None \<and> d_cantidad d \<noteq> None"
      using no_nullsD[OF n] nn by blast
  qed
qed

lemma no_nulls_create_detalle:
  assumes n: "no_nulls s" and a: "create_detalle s now uuid4 data = Inr (s', r)"
  shows "no_nulls s'"
proof -
  from a obtain s1 where
    a1: "add_detalle s now (uuid4 0) (ds_producto_id data) (ds_venta_id data) (ds_precio data)
             (ds_descuento data) (ds_cantidad data) = Inr (s1, r)"
    and s': "s' = recalcular_total_venta s1 now (ds_venta_id data)"
    by (auto simp: create_detalle_def split: sum.splits)
  note A = add_detalle_Inr[OF a1]
  show ?thesis
    by (rule no_nullsI) (use no_nullsD[OF n] A(4,8,9) in \<open>auto simp: s' recalcular_frame\<close>)
qed

lemma no_nulls_update_detalle:
  assumes n: "no_nulls s" and u: "update_detalle s now i data = Inr (s', r)"
    and g: "du_descuento data \<noteq> Given None" "du_cantidad data \<noteq> Given None"
  shows "no_nulls s'"
proof (cases "get_detalle s i")
  case None
  then show ?thesis using n u by (simp add: update_detalle_def)
next
  case (Some det)
  have det: "det \<in> set (detalles_ventas s)"
    using Some find_SomeD[of d_id i "detalles_ventas s" det] by (simp add: get_detalle_def)
  from update_detalle_frame[OF Some u] obtain d' where
    d': "r = Some d'" "applied_nullable (du_descuento data) (d_descuento det) (d_descuento d')"
      "applied_nullable (du_cantidad data) (d_cantidad det) (d_cantidad d')"
    by blast
  have nd: "d_descuento d' \<noteq> None \<and> d_cantidad d' \<noteq> None"
    using d'(2,3) g no_nullsD[OF n det]
    by (auto simp: applied_nullable_def split: field.splits)
  from u Some d'(1) have
    "set (detalles_ventas s') \<subseteq> insert d' (set (detalles_ventas s))"
    by (auto simp: update_detalle_def Let_def recalcular_frame split: sum.splits if_splits)
  then show ?thesis using nd no_nullsD[OF n] by (intro no_nullsI) blast
qed

lemma get_db_no_nulls:
  "no_nulls s \<Longrightarrow> (\<And>s' r. f s = Inr (s', r) \<Longrightarrow> no_nulls s') \<Longrightarrow> no_nulls (get_db s f)"
  by (cases "f s") (auto simp: get_db_def)

lemma detalles_frame:
  "add_cliente s now u n e x = Inr (s', c) \<Longrightarrow> detalles_ventas s' = detalles_ventas s"
  "add_producto s now u n cat pr = Inr (s', p) \<Longrightarrow> detalles_ventas s' = detalles_ventas s"
  "delete_cliente s i = Inr (s', b) \<Longrightarrow> set (detalles_ventas s') \<subseteq> set (detalles_ventas s)"
  "delete_producto s i = Inr (s', b) \<Longrightarrow> set (detalles_ventas s') \<subseteq> set (detalles_ventas s)"
  "delete_venta s i = Inr (s', b) \<Longrightarrow> set (detalles_ventas s') \<subseteq> set (detalles_ventas s)"
  "delete_detalle s now i = Inr (s', b) \<Longrightarrow> set (detalles_ventas s') \<subseteq> set (detalles_ventas s)"
proof -
  show "add_cliente s now u n e x = Inr (s', c) \<Longrightarrow> detalles_ventas s' = detalles_ventas s"
    by (auto simp: add_cliente_def Let_def split: if_splits)
  show "add_producto s now u n cat pr = Inr (s', p) \<Longrightarrow> detalles_ventas s' = detalles_ventas s"
    by (auto simp: add_producto_def Let_def split: if_splits)
  show "delete_cliente s i = Inr (s', b) \<Longrightarrow> set (detalles_ventas s') \<subseteq> set (detalles_ventas s)"
    by (cases "get_cliente s i") (auto simp: delete_cliente_def Let_def)
  show "delete_producto s i = Inr (s', b) \<Longrightarrow> set (detalles_ventas s') \<subseteq> set (detalles_ventas s)"
    by (cases "get_producto s i") (auto simp: delete_producto_def split: if_splits)
  show "delete_venta s i = Inr (s', b) \<Longrightarrow> set (detalles_ventas s') \<subseteq> set (detalles_ventas s)"
    by (cases "get_venta s i") (auto simp: delete_venta_def)
  show "delete_detalle s now i = Inr (s', b) \<Longrightarrow> set (detalles_ventas s') \<subseteq> set (detalles_ventas s)"
    by (cases "get_detalle s i") (auto simp: delete_detalle_def Let_def recalcular_frame)
qed

lemma handle_no_nulls:
  assumes n: "no_nulls s" and q: "sin_null req"
  shows "no_nulls (handle s now uuid4 req)"
proof (cases req)
  case (Crear_cliente data)
  have "no_nulls s'" if "create_cliente s now uuid4 data = Inr (s', r)" for s' r
    using no_nulls_subset[OF n, of s'] detalles_frame(1) that by (simp add: create_cliente_def)
  then show ?thesis unfolding Crear_cliente handle.simps by (rule get_db_no_nulls[OF n])
next
  case (Actualizar_cliente i data)
  have "no_nulls s'" if "update_cliente s now i data = Inr (s', r)" for s' r
    using no_nulls_subset[OF n, of s'] update_cliente_keys[OF that] by simp
  then show ?thesis unfolding Actualizar_cliente handle.simps by (rule get_db_no_nulls[OF n])
next
  case (Eliminar_cliente i)
  have "no_nulls s'" if "delete_cliente s i = Inr (s', r)" for s' r
    using no_nulls_subset[OF n, of s'] detalles_frame(3)[OF that] by simp
  then show ?thesis unfolding Eliminar_cliente handle.simps by (rule get_db_no_nulls[OF n])
next
  case (Crear_producto data)
  have "no_nulls s'" if "create_producto s now uuid4 data = Inr (s', r)" for s' r
    using no_nulls_subset[OF n, of s'] detalles_frame(2) that by (simp add: create_producto_def)
  then show ?thesis unfolding Crear_producto handle.simps by (rule get_db_no_nulls[OF n])
next
  case (Actualizar_producto i data)
  have "no_nulls s'" if "update_producto s now i data = Inr (s', r)" for s' r
    using no_nulls_subset[OF n, of s'] update_producto_keys[OF that] by simp
  then show ?thesis unfolding Actualizar_producto handle.simps by (rule get_db_no_nulls[OF n])
next
  case (Eliminar_producto i)
  have "no_nulls s'" if "delete_producto s i = Inr (s', r)" for s' r
    using no_nulls_subset[OF n, of s'] detalles_frame(4)[OF that] by simp
  then show ?thesis unfolding Eliminar_producto handle.simps by (rule get_db_no_nulls[OF n])
next
  case (Crear_venta data)
  have "no_nulls s'" if "create_venta s now uuid4 data = Inr (s', r)" for s' r
    using no_nulls_create_venta[OF n that] .
  then show ?thesis unfolding Crear_venta handle.simps by (rule get_db_no_nulls[OF n])
next
  case (Actualizar_venta i data)
  have "no_nulls s'" if "update_venta s now i data = Inr (s', r)" for s' r
  proof -
    from update_venta_Inr[OF that] have "detalles_ventas s' = detalles_ventas s" by auto
    then show ?thesis using no_nulls_subset[OF n, of s'] by simp
  qed
  then show ?thesis unfolding Actualizar_venta handle.simps by (rule get_db_no_nulls[OF n])
next
  case (Eliminar_venta i)
  have "no_nulls s'" if "delete_venta s i = Inr (s', r)" for s' r
    using no_nulls_subset[OF n, of s'] detalles_frame(5)[OF that] by simp
  then show ?thesis unfolding Eliminar_venta handle.simps by (rule get_db_no_nulls[OF n])
next
  case (Crear_detalle data)
  have "no_nulls s'" if "create_detalle s now uuid4 data = Inr (s', r)" for s' r
    using no_nulls_create_detalle[OF n that] .
  then show ?thesis unfolding Crear_detalle handle.simps by (rule get_db_no_nulls[OF n])
next
  case (Actualizar_detalle i data)
  have g: "du_descuento data \<noteq> Given None" "du_cantidad data \<noteq> Given None"
    using q by (simp_all add: Actualizar_detalle)
  have "no_nulls s'" if "update_detalle s now i data = Inr (s', r)" for s' r
    using no_nulls_update_detalle[OF n that g] .
  then show ?thesis unfolding Actualizar_detalle handle.simps by (rule get_db_no_nulls[OF n])
next
  case (Eliminar_detalle i)
  have "no_nulls s'" if "delete_detalle s now i = Inr (s', r)" for s' r
    using no_nulls_subset[OF n, of s'] detalles_frame(6)[OF that] by simp
  then show ?thesis unfolding Eliminar_detalle handle.simps by (rule get_db_no_nulls[OF n])
qed

lemma run_no_nulls:
  "no_nulls s \<Longrightarrow> list_all (\<lambda>(now, uuid4, req). sin_null req) reqs \<Longrightarrow> no_nulls (run s reqs)"
proof (induction reqs arbitrary: s)
  case Nil
  then show ?case by simp
next
  case (Cons q reqs)
  obtain now uuid4 req where q: "q = (now, uuid4, req)" by (cases q)
  have "no_nulls (handle s now uuid4 req)"
    using handle_no_nulls[OF Cons.prems(1)] Cons.prems(2) by (simp add: q)
  from Cons.IH[OF this] show ?case using Cons.prems(2) by (simp add: q)
qed

lemma coalesce_sql_sum: "coalesce (sql_sum xs) 0 = sum_list (non_null xs)"
  by (cases "non_null xs") (simp_all add: sql_sum_def coalesce_def)

lemma consistent_exact_total:
  assumes c: "consistent s" and n: "no_nulls s" and v: "v \<in> set (ventas s)"
  shows "line_total (detalles_de s (v_id v)) = Some (v_total v)"
proof -
  let ?ds = "detalles_de s (v_id v)"
  have "subtotal d \<noteq> None" if "d \<in> set ?ds" for d
  proof -
    from that have "d \<in> set (detalles_ventas s)" by (simp add: detalles_de_def)
    from no_nullsD[OF n this] obtain de ca where "d_descuento d = Some de" "d_cantidad d = Some ca"
      by auto
    then show ?thesis by (simp add: subtotal_def)
  qed
  then have "\<forall>x\<in>set (map subtotal ?ds). x \<noteq> None" by auto
  from those_non_null[OF this]
  have "line_total ?ds = Some (sum_list (non_null (map subtotal ?ds)))"
    by (simp add: line_total_def)
  moreover have "v_total v = sum_list (non_null (map subtotal ?ds))"
    using consistentD(8)[OF c v] by (simp add: coalesce_sql_sum)
  ultimately show ?thesis by simp
qed

lemma total_invariant:
  assumes "list_all (\<lambda>(now, uuid4, req). sin_null req) reqs"
  shows "list_all (\<lambda>v. line_total (detalles_de (run empty_db reqs) (v_id v)) = Some (v_total v))
           (ventas (run empty_db reqs))"
    and "line_total [] = Some 0"
proof -
  have c: "consistent (run empty_db reqs)" using run_consistent[OF consistent_empty] .
  have "no_nulls empty_db" by (simp add: no_nulls_def empty_db_def)
  from run_no_nulls[OF this assms] have n: "no_nulls (run empty_db reqs)" .
  show "list_all (\<lambda>v. line_total (detalles_de (run empty_db reqs) (v_id v)) = Some (v_total v))
           (ventas (run empty_db reqs))"
    using consistent_exact_total[OF c n] by (simp add: list_all_iff)
  show "line_total [] = Some 0" by (simp add: line_total_def)
qed

lemma run_append: "run s (xs @ ys) = run (run s xs) ys"
  by (induction xs arbitrary: s) auto

text \<open>
  C1. After any sequence of requests the stored total of a sale should be the sum of
  \<^verbatim>\<open>(precio - descuento) * cantidad\<close> over its line items. The code loses this when a line
  item is updated with an explicit null discount: \<^verbatim>\<open>update_detalle\<close> stores the null,
  and \<^verbatim>\<open>_recalcular_total_venta\<close> sums in SQL, where the row's subtotal is NULL and is
  skipped. The theorem runs the requests: after creating a sale with the line item
  \<^verbatim>\<open>{precio=100, descuento=10, cantidad=2}\<close> the total is 180; after the update the line
  item is \<^verbatim>\<open>{precio=100, descuento=NULL, cantidad=2}\<close>, the stored total is 0, and the
  sum over the line items has no integer value.
\<close>

theorem total_after_null_descuento:
  "run empty_db peticiones_una_venta = db_una_venta
   \<and> run empty_db (peticiones_una_venta @ [peticion_descuento_null]) =
       db_una_venta\<lparr>
         detalles_ventas := [(ejemplo_detalle 1 1 1 100 None (Some 2))\<lparr>d_modified_at := 5\<rparr>],
         ventas := [(ejemplo_venta 1 1 0)\<lparr>v_modified_at := 5\<rparr>]\<rparr>
   \<and> line_total (detalles_de (run empty_db (peticiones_una_venta @ [peticion_descuento_null])) 1)
       = None"
proof -
  have h: "handle db_una_venta 5 (\<lambda>i. []) (Actualizar_detalle 1
             \<lparr>du_precio = Unset, du_descuento = Given None, du_cantidad = Unset\<rparr>) =
       db_una_venta\<lparr>
         detalles_ventas := [(ejemplo_detalle 1 1 1 100 None (Some 2))\<lparr>d_modified_at := 5\<rparr>],
         ventas := [(ejemplo_venta 1 1 0)\<lparr>v_modified_at := 5\<rparr>]\<rparr>"
    by (simp add: get_db_def update_detalle_def get_detalle_def required_def nullable_def
        recalcular_total_venta_def get_venta_def set_total_def sql_sum_def coalesce_def
        subtotal_def db_una_venta_def ejemplo_defs Let_def)
  have r: "run empty_db (peticiones_una_venta @ [peticion_descuento_null]) =
       db_una_venta\<lparr>
         detalles_ventas := [(ejemplo_detalle 1 1 1 100 None (Some 2))\<lparr>d_modified_at := 5\<rparr>],
         ventas := [(ejemplo_venta 1 1 0)\<lparr>v_modified_at := 5\<rparr>]\<rparr>"
    by (simp only: run_append run_ok peticion_descuento_null_def run.simps h)
  have l: "line_total (detalles_de (run empty_db (peticiones_una_venta @ [peticion_descuento_null])) 1)
       = None"
    unfolding r by (simp add: line_total_def detalles_de_def subtotal_def ejemplo_defs)
  show ?thesis using run_ok r l by simp
qed

end
